theory Spec2Isabelle
  imports Main
begin

section \<open>Values\<close>

text \<open>
  A JavaScript string is a sequence of UTF-16 code units; a code unit is a natural number
  here.  \<open>lit\<close> turns an ASCII literal into such a sequence.
\<close>

type_synonym jsstring = "nat list"

definition lit :: "string \<Rightarrow> jsstring" where
  "lit s = map of_char s"

text \<open>
  The values a client can put into a command are the results of \<open>JSON.parse\<close>; a missing
  positional argument is \<open>undefined\<close>.  Numbers are restricted to integers.  An object is
  the association list of its own properties.
\<close>

datatype json =
    JUndef
  | JNull
  | JBool bool
  | JNum int
  | JStr jsstring
  | JArr "json list"
  | JObj "(jsstring \<times> json) list"

text \<open>Truthiness, as \<open>if (v)\<close>, \<open>!v\<close> and \<open>a && b\<close> test it.\<close>

fun truthy :: "json \<Rightarrow> bool" where
  "truthy JUndef = False"
| "truthy JNull = False"
| "truthy (JBool b) = b"
| "truthy (JNum n) = (n \<noteq> 0)"
| "truthy (JStr s) = (s \<noteq> [])"
| "truthy (JArr xs) = True"
| "truthy (JObj kvs) = True"

text \<open>
  \<open>a === b\<close> where at least one side was produced by a different \<open>JSON.parse\<close> call than
  the other: primitives compare by value, arrays and objects by identity, and two parses
  never share an object.
\<close>

fun strict_eq :: "json \<Rightarrow> json \<Rightarrow> bool" where
  "strict_eq JUndef JUndef = True"
| "strict_eq JNull JNull = True"
| "strict_eq (JBool a) (JBool b) = (a = b)"
| "strict_eq (JNum a) (JNum b) = (a = b)"
| "strict_eq (JStr a) (JStr b) = (a = b)"
| "strict_eq a b = False"

text \<open>\<open>typeof v === "object"\<close> for a truthy \<open>v\<close>.\<close>

fun is_object :: "json \<Rightarrow> bool" where
  "is_object (JArr xs) = True"
| "is_object (JObj kvs) = True"
| "is_object v = False"

text \<open>\<open>v.name\<close> for a name that no built-in prototype defines.\<close>

fun js_prop :: "json \<Rightarrow> jsstring \<Rightarrow> json" where
  "js_prop (JObj kvs) k = (case map_of kvs k of Some v \<Rightarrow> v | None \<Rightarrow> JUndef)"
| "js_prop v k = JUndef"

text \<open>\<open>v[n]\<close> for a small literal index \<open>n\<close> (the handlers use 0, 1 and 2).\<close>

fun js_index :: "json \<Rightarrow> nat \<Rightarrow> json" where
  "js_index (JArr xs) n = (if n < length xs then xs ! n else JUndef)"
| "js_index (JStr s) n = (if n < length s then JStr [s ! n] else JUndef)"
| "js_index (JObj kvs) n = (case map_of kvs [48 + n] of Some v \<Rightarrow> v | None \<Rightarrow> JUndef)"
| "js_index v n = JUndef"

text \<open>The placeholder nickname, four code units (U+65E0 U+540D U+73A9 U+5BB6).\<close>

definition default_nickname :: jsstring where
  "default_nickname = [26080, 21517, 29609, 23478]"

fun getNickname :: "json \<Rightarrow> jsstring" where
  "getNickname (JStr s) = take 12 s"
| "getNickname v = default_nickname"

text \<open>
  Property keys.  \<open>to_key\<close> is the string a value becomes when it is used as a property
  key (\<open>ToString\<close>; an array is the join of its elements, with \<open>null\<close> and \<open>undefined\<close>
  elements empty); \<open>dec_digits\<close> writes a number in decimal.  \<open>dec_value\<close> reads a digit
  string, and \<open>array_index\<close> is the array index a key names, if it is a canonical numeral.
\<close>

fun dec_digits :: "nat \<Rightarrow> jsstring" where
  "dec_digits n = (if n < 10 then [48 + n] else dec_digits (n div 10) @ [48 + n mod 10])"

declare dec_digits.simps [simp del]

fun to_key :: "json \<Rightarrow> jsstring" and join_keys :: "json list \<Rightarrow> jsstring" where
  "to_key JUndef = lit ''undefined''"
| "to_key JNull = lit ''null''"
| "to_key (JBool b) = (if b then lit ''true'' else lit ''false'')"
| "to_key (JNum n) = (if n < 0 then 45 # dec_digits (nat (- n)) else dec_digits (nat n))"
| "to_key (JStr s) = s"
| "to_key (JArr xs) = join_keys xs"
| "to_key (JObj kvs) = lit ''[object Object]''"
| "join_keys [] = []"
| "join_keys [x] = (if x = JNull \<or> x = JUndef then [] else to_key x)"
| "join_keys (x # y # ys) =
     (if x = JNull \<or> x = JUndef then [] else to_key x) @ 44 # join_keys (y # ys)"

fun dec_value :: "nat \<Rightarrow> jsstring \<Rightarrow> nat option" where
  "dec_value acc [] = Some acc"
| "dec_value acc (d # ds) =
     (if 48 \<le> d \<and> d \<le> 57 then dec_value (10 * acc + (d - 48)) ds else None)"

fun array_index :: "json \<Rightarrow> nat option" where
  "array_index (JNum n) = (if 0 \<le> n then Some (nat n) else None)"
| "array_index (JStr s) =
     (if s = [] \<or> (hd s = 48 \<and> length s > 1) then None else dec_value 0 s)"
| "array_index (JArr [v]) = array_index v"
| "array_index v = None"

text \<open>
  \<open>utc <= time\<close> for a value \<open>utc\<close> whose number is an integer written in decimal:
  \<open>undefined\<close> and objects are not a number, \<open>null\<close> and the empty string are 0, an array
  is read through its string.
\<close>

fun parse_dec :: "jsstring \<Rightarrow> int option" where
  "parse_dec [] = Some 0"
| "parse_dec (d # ds) =
     (if d = 45 then (if ds = [] then None else map_option (\<lambda>n. - int n) (dec_value 0 ds))
      else if d = 43 then (if ds = [] then None else map_option int (dec_value 0 ds))
      else map_option int (dec_value 0 (d # ds)))"

fun number_le :: "json \<Rightarrow> int \<Rightarrow> bool" where
  "number_le JUndef t = False"
| "number_le JNull t = (0 \<le> t)"
| "number_le (JBool b) t = ((if b then 1 else 0) \<le> t)"
| "number_le (JNum n) t = (n \<le> t)"
| "number_le (JStr s) t = (case parse_dec s of Some n \<Rightarrow> n \<le> t | None \<Rightarrow> False)"
| "number_le (JArr xs) t = (case parse_dec (join_keys xs) of Some n \<Rightarrow> n \<le> t | None \<Rightarrow> False)"
| "number_le (JObj kvs) t = False"

section \<open>Sessions, rooms and the broker state\<close>

type_synonym cref = nat
type_synonym rref = nat
type_synonym sock = nat

text \<open>
  The client object built in \<open>onConnect\<close>.  \<open>room\<close>, \<open>owner\<close> and \<open>onconfig\<close> are
  references to other objects; \<open>banned\<close> is the property the liveness sweep adds.
\<close>

record client =
  ws :: sock
  wsid :: jsstring
  nickname :: jsstring
  avatar :: json
  room :: "rref option"
  owner :: "cref option"
  status :: "jsstring option"
  onlineKey :: json
  servermode :: bool
  onconfig :: "cref option"
  clientIp :: jsstring
  connectTime :: int
  lastActivity :: int
  beatWaiting :: bool
  banned :: bool

record room_obj =
  room_owner :: "cref option"
  room_key :: json
  room_config :: json
  room_servermode :: bool

text \<open>An entry of the event board, as the \<open>events\<close> command builds it.\<close>

record event =
  ev_props :: "(jsstring \<times> json) list"
  ev_nickname :: jsstring
  ev_avatar :: jsstring
  ev_creator :: jsstring
  ev_id :: jsstring
  ev_members :: "jsstring list"

text \<open>What the broker writes to a socket: the argument list of \<open>sendl\<close>, or a raw text.\<close>

datatype entry =
    ServerMarker
  | RoomTuple jsstring json json "nat option" json

type_synonym roomlist = "entry option list"

type_synonym clientrow = "jsstring \<times> json \<times> bool \<times> jsstring option \<times> jsstring \<times> json"

datatype frame =
    Roomlist roomlist "event list" "clientrow list" jsstring
  | Updaterooms roomlist "clientrow list"
  | Updateclients "clientrow list"
  | Updateevents "event list"
  | Createroom json
  | CreateroomClaim json json json
  | CreateroomAuto json
  | Enterroomfailed
  | Reloadroom
  | ReloadroomTrue
  | Selfclose
  | Onconnection jsstring
  | Onclose jsstring
  | Onmessage jsstring jsstring
  | DeniedKey
  | DeniedBanned
  | EventsdeniedTotal
  | EventsdeniedTime
  | EventsdeniedBan
  | HeartbeatText
  | RawMessage json

text \<open>The attachment of a socket: unreadable, absent, or an object with a \<open>wsid\<close>.\<close>

datatype attachment = Unreadable | Absent | Wsid jsstring

text \<open>
  The broker object together with its host.  \<open>clients\<close> is the \<open>Map\<close> in insertion order;
  \<open>clientObj\<close> and \<open>roomObj\<close> are the object store, \<open>nextClient\<close> and \<open>nextRoom\<close> the next
  fresh addresses.  \<open>sent\<close> and \<open>closed\<close> record the calls of \<open>send\<close> and \<open>close\<close> that
  returned.  The host decides which sockets throw on \<open>send\<close> and on \<open>close\<close>, what
  \<open>getWebSockets\<close> returns, and how a stored \<open>utc\<close> compares with a clock reading.
  \<open>arrayMember\<close> tells which property names an array inherits from the host's prototypes
  (\<open>push\<close>, \<open>constructor\<close>, ...) and numbers the objects they name.  The rooms that
  \<open>create\<close> makes take the even addresses of \<open>roomObj\<close>, inherited object \<open>b\<close> lies at the
  odd address \<open>2 * b + 1\<close>; an object that has none of the properties \<open>owner\<close>, \<open>key\<close>,
  \<open>config\<close> and \<open>servermode\<close> reads like \<open>no_room\<close>.
\<close>

record lobby =
  rooms :: "rref list"
  events :: "event list"
  clients :: "(jsstring \<times> cref) list"
  bannedKeys :: "json list"
  bannedIps :: "jsstring list"
  bannedKeyWords :: "jsstring list"
  clientObj :: "cref \<Rightarrow> client"
  roomObj :: "rref \<Rightarrow> room_obj"
  nextClient :: cref
  nextRoom :: rref
  sent :: "(sock \<times> frame) list"
  closed :: "sock list"
  sendThrows :: "sock \<Rightarrow> bool"
  closeThrows :: "sock \<Rightarrow> bool"
  attachments :: "sock \<Rightarrow> attachment"
  websockets :: "sock list"
  alarmAt :: "int option"
  utcElapsed :: "json \<Rightarrow> int \<Rightarrow> bool"
  arrayMember :: "jsstring \<Rightarrow> nat option"

definition upd_client :: "cref \<Rightarrow> (client \<Rightarrow> client) \<Rightarrow> lobby \<Rightarrow> lobby" where
  "upd_client c f s = s\<lparr>clientObj := (clientObj s)(c := f (clientObj s c))\<rparr>"

definition upd_room :: "rref \<Rightarrow> (room_obj \<Rightarrow> room_obj) \<Rightarrow> lobby \<Rightarrow> lobby" where
  "upd_room r f s = s\<lparr>roomObj := (roomObj s)(r := f (roomObj s r))\<rparr>"

text \<open>\<open>Map.set\<close> keeps the position of a key that is present and appends a new one.\<close>

fun map_set :: "'k \<Rightarrow> 'v \<Rightarrow> ('k \<times> 'v) list \<Rightarrow> ('k \<times> 'v) list" where
  "map_set k v [] = [(k, v)]"
| "map_set k v (p # ps) = (if fst p = k then (k, v) # ps else p # map_set k v ps)"

definition map_delete :: "'k \<Rightarrow> ('k \<times> 'v) list \<Rightarrow> ('k \<times> 'v) list" where
  "map_delete k ps = filter (\<lambda>p. fst p \<noteq> k) ps"

section \<open>Sending and closing\<close>

definition cleanupClient :: "lobby \<Rightarrow> cref \<Rightarrow> lobby" where
  "cleanupClient s c = s\<lparr>clients := map_delete (wsid (clientObj s c)) (clients s)\<rparr>"

definition closeClient :: "lobby \<Rightarrow> cref \<Rightarrow> lobby" where
  "closeClient s c =
     (if closeThrows s (ws (clientObj s c)) then cleanupClient s c
      else s\<lparr>closed := closed s @ [ws (clientObj s c)]\<rparr>)"

definition sendl :: "lobby \<Rightarrow> cref \<Rightarrow> frame \<Rightarrow> lobby" where
  "sendl s c f =
     (if sendThrows s (ws (clientObj s c)) then closeClient s c
      else s\<lparr>sent := sent s @ [(ws (clientObj s c), f)]\<rparr>)"

text \<open>A bare \<open>ws.close()\<close>, outside any \<open>try\<close>: \<open>Inl\<close> is the state at which it threw.\<close>

definition ws_close :: "sock \<Rightarrow> lobby \<Rightarrow> lobby + lobby" where
  "ws_close w s = (if closeThrows s w then Inl s else Inr (s\<lparr>closed := closed s @ [w]\<rparr>))"

text \<open>The state in which a call ended, whether it returned or threw.\<close>

fun final :: "lobby + lobby \<Rightarrow> lobby" where
  "final (Inl s) = s"
| "final (Inr s) = s"

text \<open>
  The loop \<open>for (const [, client] of this.clients) if (!client.room) this.sendl(...)\<close>
  of \<open>updaterooms\<close>, \<open>updateclients\<close> and \<open>updateevents\<close>.  The iteration runs over the live
  \<open>Map\<close>: an entry removed by an earlier failing send is not visited.
\<close>

fun lobby_send :: "frame \<Rightarrow> (jsstring \<times> cref) list \<Rightarrow> lobby \<Rightarrow> lobby" where
  "lobby_send f [] s = s"
| "lobby_send f ((k, c) # rest) s =
     (if map_of (clients s) k = Some c \<and> room (clientObj s c) = None
      then lobby_send f rest (sendl s c f)
      else lobby_send f rest s)"

section \<open>Snapshots and broadcasts\<close>

text \<open>
  \<open>getroomlist\<close>.  The scratch property \<open>_num\<close> is set on every listed room, incremented
  through the clients' room references and deleted again; \<open>nums\<close> holds it for the time of
  the call, \<open>None\<close> standing for an absent or not-a-number value.  \<open>roomlist[i] = "server"\<close>
  writes at index \<open>i\<close> and may leave holes, \<open>push\<close> appends.
\<close>

type_synonym nums = "rref \<Rightarrow> nat option"

definition set_index :: "'a option list \<Rightarrow> nat \<Rightarrow> 'a \<Rightarrow> 'a option list" where
  "set_index xs i v =
     (if i < length xs then xs[i := Some v]
      else xs @ replicate (i - length xs) None @ [Some v])"

fun reset_nums :: "rref list \<Rightarrow> nums \<Rightarrow> nums" where
  "reset_nums [] m = m"
| "reset_nums (r # rs) m = reset_nums rs (m(r := Some 0))"

fun count_nums :: "(cref \<Rightarrow> client) \<Rightarrow> (jsstring \<times> cref) list \<Rightarrow> nums \<Rightarrow> nums" where
  "count_nums h [] m = m"
| "count_nums h ((k, c) # rest) m =
     (case room (h c) of
        None \<Rightarrow> count_nums h rest m
      | Some r \<Rightarrow>
          if \<not> servermode (h c) then count_nums h rest (m(r := map_option Suc (m r)))
          else count_nums h rest m)"

fun roomlist_loop :: "nat \<Rightarrow> rref list \<Rightarrow> nums \<Rightarrow> roomlist \<Rightarrow> lobby \<Rightarrow> roomlist \<times> lobby" where
  "roomlist_loop i [] m out s = (out, s)"
| "roomlist_loop i (r # rs) m out s =
     (if room_servermode (roomObj s r) then
        roomlist_loop (Suc i) rs (m(r := None)) (set_index out i ServerMarker) s
      else
        (case room_owner (roomObj s r) of
           None \<Rightarrow> roomlist_loop (Suc i) rs (m(r := None)) out s
         | Some ow \<Rightarrow>
             if truthy (room_config (roomObj s r)) then
               (let s' = (if m r = Some 0 then sendl s ow Reloadroom else s)
                in roomlist_loop (Suc i) rs (m(r := None))
                     (out @ [Some (RoomTuple (nickname (clientObj s' ow)) (avatar (clientObj s' ow))
                                     (room_config (roomObj s' r)) (m r) (room_key (roomObj s' r)))])
                     s')
             else roomlist_loop (Suc i) rs (m(r := None)) out s))"

definition getroomlist :: "lobby \<Rightarrow> roomlist \<times> lobby" where
  "getroomlist s =
     roomlist_loop 0 (rooms s)
       (count_nums (clientObj s) (clients s) (reset_nums (rooms s) (\<lambda>r. None))) [] s"

definition clientrow_of :: "client \<Rightarrow> clientrow" where
  "clientrow_of x = (nickname x, avatar x, room x = None, status x, wsid x, onlineKey x)"

definition getclientlist :: "lobby \<Rightarrow> clientrow list" where
  "getclientlist s = map (\<lambda>(k, c). clientrow_of (clientObj s c)) (clients s)"

definition updaterooms :: "lobby \<Rightarrow> lobby" where
  "updaterooms s =
     (let (roomlist, s1) = getroomlist s;
          clientlist = getclientlist s1
      in lobby_send (Updaterooms roomlist clientlist) (clients s1) s1)"

definition updateclients :: "lobby \<Rightarrow> lobby" where
  "updateclients s = lobby_send (Updateclients (getclientlist s)) (clients s) s"

definition ev_utc :: "event \<Rightarrow> json" where
  "ev_utc e = (case map_of (ev_props e) (lit ''utc'') of Some v \<Rightarrow> v | None \<Rightarrow> JUndef)"

definition checkevents :: "lobby \<Rightarrow> int \<Rightarrow> lobby" where
  "checkevents s time = s\<lparr>events := filter (\<lambda>e. \<not> utcElapsed s (ev_utc e) time) (events s)\<rparr>"

definition updateevents :: "lobby \<Rightarrow> int \<Rightarrow> lobby" where
  "updateevents s time =
     (let s1 = checkevents s time
      in lobby_send (Updateevents (events s1)) (clients s1) s1)"

section \<open>The lobby commands\<close>

definition messages_create :: "lobby \<Rightarrow> cref \<Rightarrow> json \<Rightarrow> json \<Rightarrow> json \<Rightarrow> lobby" where
  "messages_create s c key nick av =
     (if \<not> strict_eq (onlineKey (clientObj s c)) key then s
      else
        (let s1 = upd_client c (\<lambda>x. x\<lparr>nickname := getNickname nick, avatar := av\<rparr>) s;
             r = nextRoom s1;
             s2 = s1\<lparr>nextRoom := r + 2,
                     roomObj := (roomObj s1)(r := \<lparr>room_owner = None, room_key = JUndef,
                                                  room_config = JUndef, room_servermode = False\<rparr>),
                     rooms := rooms s1 @ [r]\<rparr>;
             s3 = upd_client c (\<lambda>x. x\<lparr>room := Some r, status := None\<rparr>) s2;
             s4 = upd_room r (\<lambda>y. y\<lparr>room_owner := Some c, room_key := key\<rparr>) s3
         in sendl s4 c (Createroom key)))"

text \<open>The admission test of \<open>enter\<close> on a room's config.\<close>

definition admission_refused :: "json \<Rightarrow> bool" where
  "admission_refused config =
     (\<not> truthy config \<or>
      (truthy (js_prop config (lit ''gameStarted'')) \<and>
       (\<not> truthy (js_prop config (lit ''observe'')) \<or>
        \<not> truthy (js_prop config (lit ''observeReady'')))))"

definition messages_enter ::
  "lobby \<Rightarrow> cref \<Rightarrow> json \<Rightarrow> json \<Rightarrow> json \<Rightarrow> json \<Rightarrow> json \<Rightarrow> lobby" where
  "messages_enter s c key nick av config mode =
     (let s1 = upd_client c (\<lambda>x. x\<lparr>nickname := getNickname nick, avatar := av\<rparr>) s
      in case find (\<lambda>r. strict_eq (room_key (roomObj s1 r)) key) (rooms s1) of
           None \<Rightarrow> sendl s1 c Enterroomfailed
         | Some r \<Rightarrow>
             (let s2 = upd_client c (\<lambda>x. x\<lparr>room := Some r, status := None\<rparr>) s1
              in case room_owner (roomObj s2 r) of
                   None \<Rightarrow> s2
                 | Some ow \<Rightarrow>
                     updaterooms
                       (if room_servermode (roomObj s2 r) \<and> onconfig (clientObj s2 ow) = None
                           \<and> truthy config \<and> truthy mode
                        then upd_client ow
                               (\<lambda>x. x\<lparr>onconfig := Some c, nickname := getNickname nick, avatar := av\<rparr>)
                               (sendl s2 ow (CreateroomClaim (room_key (roomObj s2 r)) config mode))
                        else if admission_refused (room_config (roomObj s2 r))
                        then sendl s2 c Enterroomfailed
                        else (let s3 = upd_client c (\<lambda>x. x\<lparr>owner := Some ow\<rparr>) s2
                              in sendl s3 ow (Onconnection (wsid (clientObj s3 c)))))))"

definition messages_changeAvatar :: "lobby \<Rightarrow> cref \<Rightarrow> json \<Rightarrow> json \<Rightarrow> lobby" where
  "messages_changeAvatar s c nick av =
     updateclients (upd_client c (\<lambda>x. x\<lparr>nickname := getNickname nick, avatar := av\<rparr>) s)"

text \<open>
  \<open>this.rooms[k]\<close> for a key \<open>k\<close> taken from a command: the room at an index of the
  directory, the number \<open>length\<close>, an object that the array inherits under that name, or
  \<open>undefined\<close>.
\<close>

datatype slot = NoSlot | RoomSlot rref | LengthSlot nat | MemberSlot rref

definition rooms_at :: "lobby \<Rightarrow> json \<Rightarrow> slot" where
  "rooms_at s k =
     (case array_index k of
        Some i \<Rightarrow> if i < length (rooms s) then RoomSlot (rooms s ! i) else NoSlot
      | None \<Rightarrow>
          if to_key k = lit ''length'' then LengthSlot (length (rooms s))
          else case arrayMember s (to_key k) of
                 None \<Rightarrow> NoSlot
               | Some b \<Rightarrow> MemberSlot (2 * b + 1))"

text \<open>
  The \<open>server\<close> command.  \<open>server_claim\<close> is its test \<open>room.owner\<close> and what follows, for
  an object \<open>r\<close> found under the key.  When the key is \<open>length\<close> and the directory is not
  empty, the assignment \<open>room.owner = client\<close> is to a number and throws: the result is
  \<open>Inl\<close>, with the state at the throw.
\<close>

definition server_claim :: "lobby \<Rightarrow> cref \<Rightarrow> rref \<Rightarrow> json \<Rightarrow> lobby" where
  "server_claim s1 c r cfg =
     (if room_owner (roomObj s1 r) \<noteq> None then sendl s1 c ReloadroomTrue
      else
        (let s2 = upd_room r (\<lambda>y. y\<lparr>room_owner := Some c\<rparr>) s1;
             s3 = upd_client c
                    (\<lambda>x. x\<lparr>room := Some r, nickname := getNickname (js_index cfg 1),
                           avatar := js_index cfg 2\<rparr>) s2
         in sendl s3 c (CreateroomAuto (js_index cfg 0))))"

definition messages_server :: "lobby \<Rightarrow> cref \<Rightarrow> json \<Rightarrow> lobby + lobby" where
  "messages_server s c cfg =
     (if truthy cfg then
        (let s1 = upd_client c (\<lambda>x. x\<lparr>servermode := True\<rparr>) s
         in case rooms_at s1 (js_index cfg 0) of
              NoSlot \<Rightarrow> Inr (sendl s1 c ReloadroomTrue)
            | LengthSlot n \<Rightarrow> if n = 0 then Inr (sendl s1 c ReloadroomTrue) else Inl s1
            | RoomSlot r \<Rightarrow> Inr (server_claim s1 c r cfg)
            | MemberSlot r \<Rightarrow> Inr (server_claim s1 c r cfg))
      else
        Inr (updaterooms
          (case find (\<lambda>r. room_owner (roomObj s r) = None) (rooms s) of
             None \<Rightarrow> s
           | Some r \<Rightarrow>
               upd_client c (\<lambda>x. x\<lparr>room := Some r, servermode := True\<rparr>)
                 (upd_room r (\<lambda>y. y\<lparr>room_owner := Some c, room_servermode := True\<rparr>) s))))"

definition messages_key :: "lobby \<Rightarrow> cref \<Rightarrow> json \<Rightarrow> lobby" where
  "messages_key s c ident =
     (if \<not> truthy ident \<or> \<not> is_object ident then closeClient (sendl s c DeniedKey) c
      else if list_ex (\<lambda>k. strict_eq k (js_index ident 0)) (bannedKeys s)
      then closeClient (s\<lparr>bannedIps := bannedIps s @ [clientIp (clientObj s c)]\<rparr>) c
      else upd_client c (\<lambda>x. x\<lparr>onlineKey := js_index ident 0\<rparr>) s)"

definition messages_config :: "lobby \<Rightarrow> cref \<Rightarrow> json \<Rightarrow> lobby" where
  "messages_config s c config =
     updaterooms
       (case room (clientObj s c) of
          None \<Rightarrow> s
        | Some r \<Rightarrow>
            if room_owner (roomObj s r) \<noteq> Some c then s
            else
              (let s1 =
                 (if room_servermode (roomObj s r) then
                    (let s2 = upd_room r (\<lambda>y. y\<lparr>room_servermode := False\<rparr>) s
                     in case onconfig (clientObj s2 c) of
                          None \<Rightarrow> s2
                        | Some t \<Rightarrow>
                            upd_client c (\<lambda>x. x\<lparr>onconfig := None\<rparr>)
                              (if map_of (clients s2) (wsid (clientObj s2 t)) \<noteq> None then
                                 (let s3 = upd_client t (\<lambda>x. x\<lparr>owner := Some c\<rparr>) s2
                                  in sendl s3 c (Onconnection (wsid (clientObj s3 t))))
                               else s2))
                  else s)
               in upd_room r (\<lambda>y. y\<lparr>room_config := config\<rparr>) s1))"

definition messages_status :: "lobby \<Rightarrow> cref \<Rightarrow> json \<Rightarrow> lobby" where
  "messages_status s c str =
     updateclients
       (case str of
          JStr t \<Rightarrow> upd_client c (\<lambda>x. x\<lparr>status := Some t\<rparr>) s
        | _ \<Rightarrow> upd_client c (\<lambda>x. x\<lparr>status := None\<rparr>) s)"

text \<open>\<open>this.clients.get(id)\<close> for a key taken from a command: only a string can be a key.\<close>

fun clients_get :: "lobby \<Rightarrow> json \<Rightarrow> cref option" where
  "clients_get s (JStr k) = map_of (clients s) k"
| "clients_get s v = None"

definition messages_send :: "lobby \<Rightarrow> cref \<Rightarrow> json \<Rightarrow> json \<Rightarrow> lobby" where
  "messages_send s c ident message =
     (case clients_get s ident of
        None \<Rightarrow> s
      | Some t \<Rightarrow>
          if owner (clientObj s t) = Some c then sendl s t (RawMessage message) else s)"

definition messages_close :: "lobby \<Rightarrow> cref \<Rightarrow> json \<Rightarrow> lobby" where
  "messages_close s c ident =
     (case clients_get s ident of
        None \<Rightarrow> s
      | Some t \<Rightarrow> if owner (clientObj s t) = Some c then closeClient s t else s)"

text \<open>
  The \<open>events\<close> command.  \<open>is_infix\<close> is \<open>str.indexOf(i) !== -1\<close>; \<open>events_member\<close>
  is the loop over the board for a \<open>join\<close> or \<open>leave\<close>, returning the board and the
  flag \<open>changed\<close>.
\<close>

fun is_infix :: "'a list \<Rightarrow> 'a list \<Rightarrow> bool" where
  "is_infix i [] = (i = [])"
| "is_infix i (x # xs) = (take (length i) (x # xs) = i \<or> is_infix i xs)"

fun isBanned :: "lobby \<Rightarrow> json \<Rightarrow> bool" where
  "isBanned s (JStr str) = list_ex (\<lambda>i. is_infix i str) (bannedKeyWords s)"
| "isBanned s v = False"

fun events_member :: "jsstring \<Rightarrow> jsstring \<Rightarrow> json \<Rightarrow> event list \<Rightarrow> event list \<times> bool" where
  "events_member name ident type [] = ([], False)"
| "events_member name ident type (e # es) =
     (let (es', changed) = events_member name ident type es
      in if ev_id e \<noteq> name then (e # es', changed)
         else if strict_eq type (JStr (lit ''join'')) then
           ((if ident \<in> set (ev_members e) then e
             else e\<lparr>ev_members := ev_members e @ [ident]\<rparr>) # es', True)
         else if strict_eq type (JStr (lit ''leave'')) then
           ((if ident \<in> set (ev_members e) then
               (if remove1 ident (ev_members e) = [] then es'
                else e\<lparr>ev_members := remove1 ident (ev_members e)\<rparr> # es')
             else e # es'), True)
         else (e # es', changed))"

fun has_own :: "json \<Rightarrow> jsstring \<Rightarrow> bool" where
  "has_own (JObj kvs) k = (map_of kvs k \<noteq> None)"
| "has_own v k = False"

definition messages_events ::
  "lobby \<Rightarrow> cref \<Rightarrow> json \<Rightarrow> json \<Rightarrow> json \<Rightarrow> int \<Rightarrow> jsstring \<Rightarrow> lobby" where
  "messages_events s c cfg ident type time fresh =
     (case ident of
        JStr key \<Rightarrow>
          if list_ex (\<lambda>k. strict_eq k ident) (bannedKeys s)
             \<or> \<not> strict_eq (onlineKey (clientObj s c)) ident
          then closeClient (s\<lparr>bannedIps := bannedIps s @ [clientIp (clientObj s c)]\<rparr>) c
          else if \<not> (truthy cfg \<and> truthy ident) then s
          else
            (case cfg of
               JStr name \<Rightarrow>
                 (let (es, changed) = events_member name key type (events s)
                  in if changed then updateevents (s\<lparr>events := es\<rparr>) time
                     else s\<lparr>events := es\<rparr>)
             | _ \<Rightarrow>
                 if has_own cfg (lit ''utc'') \<and> has_own cfg (lit ''day'')
                    \<and> has_own cfg (lit ''hour'') \<and> has_own cfg (lit ''content'')
                 then
                   (if length (events s) \<ge> 20 then sendl s c EventsdeniedTotal
                    else if utcElapsed s (js_prop cfg (lit ''utc'')) time
                    then sendl s c EventsdeniedTime
                    else if isBanned s (js_prop cfg (lit ''content''))
                    then sendl s c EventsdeniedBan
                    else
                      (let nick = getNickname (js_prop cfg (lit ''nickname''));
                           e = \<lparr>ev_props = (case cfg of JObj kvs \<Rightarrow> kvs | _ \<Rightarrow> []),
                                ev_nickname = nick,
                                ev_avatar = (if nick = [] then lit ''caocao'' else nick),
                                ev_creator = key, ev_id = fresh, ev_members = [key]\<rparr>
                       in updateevents (s\<lparr>events := e # events s\<rparr>) time))
                 else s)
      | _ \<Rightarrow> closeClient (s\<lparr>bannedIps := bannedIps s @ [clientIp (clientObj s c)]\<rparr>) c)"

section \<open>Inbound messages\<close>

text \<open>
  An inbound text together with what \<open>JSON.parse\<close> makes of it (\<open>None\<close> when it throws).
  \<open>command_name\<close> is the property key that the second element of a command selects in the
  table \<open>messages\<close>; values whose key is no command name select nothing that changes the
  broker.  \<open>arg\<close> is a positional argument, \<open>undefined\<close> when the array is too short.
  A command that throws ends \<open>webSocketMessage\<close>, whose last statement is the call, with
  the state at the throw; \<open>dispatch\<close> gives the state in which the command ended.
\<close>

datatype inbound = Inbound jsstring "json option"

fun command_name :: "json \<Rightarrow> jsstring option" where
  "command_name (JStr s) = Some s"
| "command_name (JArr [v]) = command_name v"
| "command_name v = None"

definition arg :: "json list \<Rightarrow> nat \<Rightarrow> json" where
  "arg xs i = (if i < length xs then xs ! i else JUndef)"

definition dispatch :: "lobby \<Rightarrow> cref \<Rightarrow> json \<Rightarrow> json list \<Rightarrow> int \<Rightarrow> jsstring \<Rightarrow> lobby" where
  "dispatch s c type a time fresh =
     (case command_name type of
        None \<Rightarrow> s
      | Some n \<Rightarrow>
          if n = lit ''create'' then messages_create s c (arg a 0) (arg a 1) (arg a 2)
          else if n = lit ''enter''
          then messages_enter s c (arg a 0) (arg a 1) (arg a 2) (arg a 3) (arg a 4)
          else if n = lit ''changeAvatar'' then messages_changeAvatar s c (arg a 0) (arg a 1)
          else if n = lit ''server'' then final (messages_server s c (arg a 0))
          else if n = lit ''key'' then messages_key s c (arg a 0)
          else if n = lit ''events''
          then messages_events s c (arg a 0) (arg a 1) (arg a 2) time fresh
          else if n = lit ''config'' then messages_config s c (arg a 0)
          else if n = lit ''status'' then messages_status s c (arg a 0)
          else if n = lit ''send'' then messages_send s c (arg a 0) (arg a 1)
          else if n = lit ''close'' then messages_close s c (arg a 0)
          else s)"

text \<open>
  The session a socket's attachment names.  Every handler starts with the same three tests:
  the attachment can be read, it has a non-empty \<open>wsid\<close>, and the registry has a session
  for it.
\<close>

definition resolve :: "lobby \<Rightarrow> sock \<Rightarrow> cref option" where
  "resolve s w =
     (case attachments s w of
        Unreadable \<Rightarrow> None
      | Absent \<Rightarrow> None
      | Wsid k \<Rightarrow> if k = [] then None else map_of (clients s) k)"

definition webSocketMessage :: "lobby \<Rightarrow> sock \<Rightarrow> inbound \<Rightarrow> int \<Rightarrow> jsstring \<Rightarrow> lobby" where
  "webSocketMessage s w message time fresh =
     (case resolve s w of
        None \<Rightarrow> s
      | Some c \<Rightarrow>
          (let s1 = upd_client c (\<lambda>x. x\<lparr>lastActivity := time, beatWaiting := False\<rparr>) s
           in case message of
                Inbound msg parsed \<Rightarrow>
                  if msg = lit ''heartbeat'' then s1
                  else
                    (case owner (clientObj s1 c) of
                       Some ow \<Rightarrow> sendl s1 ow (Onmessage (wsid (clientObj s1 c)) msg)
                     | None \<Rightarrow>
                         (case parsed of
                            Some (JArr arr) \<Rightarrow>
                              if strict_eq (arg arr 0) (JStr (lit ''server''))
                              then dispatch s1 c (arg arr 1) (drop 2 arr) time fresh
                              else s1
                          | _ \<Rightarrow> sendl s1 c DeniedBanned))))"

section \<open>Disconnect\<close>

fun selfclose_loop :: "rref \<Rightarrow> cref \<Rightarrow> (jsstring \<times> cref) list \<Rightarrow> lobby \<Rightarrow> lobby" where
  "selfclose_loop r c [] s = s"
| "selfclose_loop r c ((k, x) # rest) s =
     (if map_of (clients s) k = Some x \<and> room (clientObj s x) = Some r \<and> x \<noteq> c
      then selfclose_loop r c rest (sendl s x Selfclose)
      else selfclose_loop r c rest s)"

text \<open>
  The loop over \<open>this.rooms\<close> with \<open>splice(i--, 1)\<close>: the rooms that stay, and the state
  after the notifications.
\<close>

fun close_rooms :: "cref \<Rightarrow> rref list \<Rightarrow> lobby \<Rightarrow> rref list \<times> lobby" where
  "close_rooms c [] s = ([], s)"
| "close_rooms c (r # rs) s =
     (if room_owner (roomObj s r) = Some c
      then close_rooms c rs (selfclose_loop r c (clients s) s)
      else (let (keep, s') = close_rooms c rs s in (r # keep, s')))"

definition handleClose :: "lobby \<Rightarrow> sock \<Rightarrow> lobby" where
  "handleClose s w =
     (case resolve s w of
        None \<Rightarrow> s
      | Some c \<Rightarrow>
          (let (keep, s1) = close_rooms c (rooms s) s;
               s2 = s1\<lparr>rooms := keep\<rparr>;
               s3 = (case owner (clientObj s2 c) of
                       Some ow \<Rightarrow> sendl s2 ow (Onclose (wsid (clientObj s2 c)))
                     | None \<Rightarrow> s2);
               s4 = cleanupClient s3 c
           in if room (clientObj s4 c) \<noteq> None then updaterooms s4 else updateclients s4))"

section \<open>Connect\<close>

definition scheduleAlarm :: "lobby \<Rightarrow> int \<Rightarrow> lobby" where
  "scheduleAlarm s time = (if alarmAt s = None then s\<lparr>alarmAt := Some (time + 10 * 1000)\<rparr> else s)"

text \<open>
  \<open>onConnect\<close>, with the result of \<open>getid()\<close> and the clock reading as arguments (the
  readings of the clock within one call are taken to be equal).  \<open>scheduleAlarm\<close> runs
  asynchronously in the source; it touches nothing but the alarm, which is armed at once
  here.  The result is \<open>Inl\<close> when the bare \<open>ws.close()\<close> of the banned branch throws.
\<close>

definition onConnect :: "lobby \<Rightarrow> sock \<Rightarrow> jsstring \<Rightarrow> jsstring \<Rightarrow> int \<Rightarrow> lobby + lobby" where
  "onConnect s w ip ident time =
     (let c = nextClient s;
          s1 = s\<lparr>attachments := (attachments s)(w := Wsid ident),
                 nextClient := Suc c,
                 clientObj := (clientObj s)(c :=
                   \<lparr>ws = w, wsid = ident, nickname = [], avatar = JStr [], room = None,
                    owner = None, status = None, onlineKey = JNull, servermode = False,
                    onconfig = None, clientIp = ip, connectTime = time, lastActivity = time,
                    beatWaiting = False, banned = False\<rparr>),
                 clients := map_set ident c (clients s)\<rparr>
      in if ip \<in> set (bannedIps s1) then ws_close w (sendl s1 c DeniedBanned)
         else
           (let s2 = scheduleAlarm s1 time;
                (roomlist, s3) = getroomlist s2;
                s4 = checkevents s3 time;
                clientlist = getclientlist s4
            in Inr (sendl s4 c (Roomlist roomlist (events s4) clientlist
                                  (wsid (clientObj s4 c))))))"

text \<open>
  \<open>fetch\<close> hands the server end of a new socket pair to the host
  (\<open>acceptWebSocket\<close>) and then calls \<open>onConnect\<close>.
\<close>

definition fetch :: "lobby \<Rightarrow> sock \<Rightarrow> jsstring \<Rightarrow> jsstring \<Rightarrow> int \<Rightarrow> lobby + lobby" where
  "fetch s w ip ident time = onConnect (s\<lparr>websockets := websockets s @ [w]\<rparr>) w ip ident time"

text \<open>
  The constructor: empty directory, board, registry and ban lists, and a \<open>close\<close> (inside
  \<open>try\<close>) of every socket the host still holds from an earlier run.  The host is given by
  its sockets, their attachments, the sockets on which \<open>send\<close> and \<open>close\<close> throw, its
  comparison of a \<open>utc\<close> value with a clock reading, and the members its arrays inherit.
  \<open>no_client\<close> and \<open>no_room\<close> fill the addresses of the store that no object occupies
  yet.  \<open>new_lobby\<close> is the broker on a host that holds no socket, on which no \<open>send\<close> and
  no \<open>close\<close> throws, and whose arrays inherit the members \<open>standard_members\<close>.
\<close>

definition no_client :: client where
  "no_client =
     \<lparr>ws = 0, wsid = [], nickname = [], avatar = JUndef, room = None, owner = None,
      status = None, onlineKey = JUndef, servermode = False, onconfig = None, clientIp = [],
      connectTime = 0, lastActivity = 0, beatWaiting = False, banned = False\<rparr>"

definition no_room :: room_obj where
  "no_room =
     \<lparr>room_owner = None, room_key = JUndef, room_config = JUndef, room_servermode = False\<rparr>"

definition constructor ::
  "sock list \<Rightarrow> (sock \<Rightarrow> attachment) \<Rightarrow> (sock \<Rightarrow> bool) \<Rightarrow> (sock \<Rightarrow> bool)
     \<Rightarrow> (json \<Rightarrow> int \<Rightarrow> bool) \<Rightarrow> (jsstring \<Rightarrow> nat option) \<Rightarrow> lobby" where
  "constructor socks atts sthrows cthrows elapsed members =
     \<lparr>rooms = [], events = [], clients = [], bannedKeys = [], bannedIps = [],
      bannedKeyWords = [], clientObj = (\<lambda>c. no_client), roomObj = (\<lambda>r. no_room),
      nextClient = 0, nextRoom = 0, sent = [],
      closed = filter (\<lambda>w. \<not> cthrows w) socks,
      sendThrows = sthrows, closeThrows = cthrows,
      attachments = atts, websockets = socks, alarmAt = None,
      utcElapsed = elapsed, arrayMember = members\<rparr>"

fun position :: "'a list \<Rightarrow> 'a \<Rightarrow> nat option" where
  "position [] k = None"
| "position (x # xs) k = (if x = k then Some 0 else map_option Suc (position xs k))"

definition standard_members :: "jsstring list" where
  "standard_members =
     map lit
       [''constructor'', ''__proto__'', ''toString'', ''toLocaleString'', ''valueOf'',
        ''hasOwnProperty'', ''isPrototypeOf'', ''propertyIsEnumerable'',
        ''__defineGetter__'', ''__defineSetter__'', ''__lookupGetter__'', ''__lookupSetter__'',
        ''at'', ''concat'', ''copyWithin'', ''entries'', ''every'', ''fill'', ''filter'',
        ''find'', ''findIndex'', ''findLast'', ''findLastIndex'', ''flat'', ''flatMap'',
        ''forEach'', ''includes'', ''indexOf'', ''join'', ''keys'', ''lastIndexOf'', ''map'',
        ''pop'', ''push'', ''reduce'', ''reduceRight'', ''reverse'', ''shift'', ''slice'',
        ''some'', ''sort'', ''splice'', ''toReversed'', ''toSorted'', ''toSpliced'',
        ''unshift'', ''values'', ''with'']"

definition new_lobby :: lobby where
  "new_lobby =
     constructor [] (\<lambda>w. Absent) (\<lambda>w. False) (\<lambda>w. False) number_le
       (position standard_members)"

section \<open>The liveness sweep\<close>

text \<open>
  \<open>alarm_ws\<close> is one round of the loop of \<open>alarm\<close>, for one socket; a round that ends
  in a bare \<open>ws.close()\<close> that throws ends the whole sweep.  The host's list of sockets is
  the same before and after the loop.
\<close>

definition alarm_ws :: "int \<Rightarrow> sock \<Rightarrow> lobby \<Rightarrow> lobby + lobby" where
  "alarm_ws time w s =
     (case resolve s w of
        None \<Rightarrow> ws_close w s
      | Some c \<Rightarrow>
          if \<not> truthy (onlineKey (clientObj s c)) \<and> \<not> banned (clientObj s c)
             \<and> time - connectTime (clientObj s c) > 2000
          then ws_close w (upd_client c (\<lambda>x. x\<lparr>banned := True\<rparr>) (sendl s c DeniedKey))
          else if time - lastActivity (clientObj s c) > 60000 then
            (if beatWaiting (clientObj s c) then ws_close w s
             else
               (let s1 = upd_client c (\<lambda>x. x\<lparr>beatWaiting := True\<rparr>) s
                in if sendThrows s1 w then ws_close w s1
                   else Inr (s1\<lparr>sent := sent s1 @ [(w, HeartbeatText)]\<rparr>)))
          else Inr s)"

fun alarm_loop :: "int \<Rightarrow> sock list \<Rightarrow> lobby \<Rightarrow> lobby + lobby" where
  "alarm_loop time [] s = Inr s"
| "alarm_loop time (w # rest) s =
     (case alarm_ws time w s of
        Inl e \<Rightarrow> Inl e
      | Inr s' \<Rightarrow> alarm_loop time rest s')"

definition alarm :: "lobby \<Rightarrow> int \<Rightarrow> lobby + lobby" where
  "alarm s time =
     (if websockets s = [] then Inr s
      else
        (case alarm_loop time (websockets s) s of
           Inl e \<Rightarrow> Inl e
         | Inr s' \<Rightarrow>
             Inr (if websockets s' \<noteq> [] then s'\<lparr>alarmAt := Some (time + 10 * 1000)\<rparr> else s')))"

section \<open>The rehydrating iteration of the broker\<close>

text \<open>
  The iteration of the broker that keeps \<open>wsid\<close>, \<open>ip\<close>, \<open>joinedAt\<close> and \<open>verified\<close> in the
  attachment and rebuilds a client object on demand: its client objects, its registry, the
  helper \<open>createClientWrapper\<close>, and the first statements of its \<open>webSocketMessage\<close>.
\<close>

record metadata =
  meta_wsid :: jsstring
  meta_ip :: jsstring
  meta_joinedAt :: int
  meta_verified :: bool

record wrapper =
  w_ws :: sock
  w_wsid :: jsstring
  w_clientIp :: jsstring
  w_nickname :: jsstring
  w_avatar :: json
  w_room :: "rref option"
  w_owner :: "cref option"
  w_status :: "jsstring option"
  w_onlineKey :: json
  w_servermode :: bool
  w_onconfig :: "cref option"

record registry =
  reg_clients :: "(jsstring \<times> cref) list"
  reg_obj :: "cref \<Rightarrow> wrapper"
  reg_next :: cref

definition createClientWrapper :: "registry \<Rightarrow> sock \<Rightarrow> metadata \<Rightarrow> cref \<times> registry" where
  "createClientWrapper g w m =
     (case map_of (reg_clients g) (meta_wsid m) of
        Some c \<Rightarrow> (c, g)
      | None \<Rightarrow>
          (let c = reg_next g
           in (c, g\<lparr>reg_next := Suc c,
                    reg_obj := (reg_obj g)(c :=
                      \<lparr>w_ws = w, w_wsid = meta_wsid m, w_clientIp = meta_ip m, w_nickname = [],
                       w_avatar = JStr [], w_room = None, w_owner = None, w_status = None,
                       w_onlineKey = JNull, w_servermode = False, w_onconfig = None\<rparr>),
                    reg_clients := map_set (meta_wsid m) c (reg_clients g)\<rparr>)))"

text \<open>
  \<open>let client = this.clients.get(meta.wsid); if (!client) client = createClientWrapper(ws, meta)\<close>:
  the session the rest of the handler works on, and the registry it works in.
\<close>

definition rehydrate :: "registry \<Rightarrow> sock \<Rightarrow> metadata \<Rightarrow> cref \<times> registry" where
  "rehydrate g w m =
     (case map_of (reg_clients g) (meta_wsid m) of
        Some c \<Rightarrow> (c, g)
      | None \<Rightarrow> createClientWrapper g w m)"

section \<open>Relations between states\<close>

text \<open>
  \<open>io_only s s'\<close>: the step from \<open>s\<close> to \<open>s'\<close> changed nothing but the registry and the
  records of frames sent and sockets closed.  \<open>adds P s s'\<close>: the step only added frames,
  all of them satisfying \<open>P\<close>.  \<open>shrinks s s'\<close>: the step added no session to the registry
  and changed none.  \<open>quiet s\<close>: no \<open>send\<close> throws on this host.
\<close>

definition io_only :: "lobby \<Rightarrow> lobby \<Rightarrow> bool" where
  "io_only s s' =
     (rooms s' = rooms s \<and> events s' = events s \<and> bannedKeys s' = bannedKeys s \<and>
      bannedIps s' = bannedIps s \<and> bannedKeyWords s' = bannedKeyWords s \<and>
      clientObj s' = clientObj s \<and> roomObj s' = roomObj s \<and>
      nextClient s' = nextClient s \<and> nextRoom s' = nextRoom s \<and>
      sendThrows s' = sendThrows s \<and> closeThrows s' = closeThrows s \<and>
      attachments s' = attachments s \<and> websockets s' = websockets s \<and>
      alarmAt s' = alarmAt s \<and> utcElapsed s' = utcElapsed s \<and>
      arrayMember s' = arrayMember s)"

definition adds :: "(frame \<Rightarrow> bool) \<Rightarrow> lobby \<Rightarrow> lobby \<Rightarrow> bool" where
  "adds P s s' = (\<exists>fs. sent s' = sent s @ fs \<and> (\<forall>p\<in>set fs. P (snd p)))"

definition shrinks :: "lobby \<Rightarrow> lobby \<Rightarrow> bool" where
  "shrinks s s' =
     (\<forall>k. map_of (clients s') k = None \<or> map_of (clients s') k = map_of (clients s) k)"

definition quiet :: "lobby \<Rightarrow> bool" where
  "quiet s = (\<forall>w. \<not> sendThrows s w)"

text \<open>
  The sessions a room's member count counts, and the sessions a lobby broadcast is
  addressed to, both in the order of the registry.
\<close>

definition live_members :: "lobby \<Rightarrow> rref \<Rightarrow> cref list" where
  "live_members s r =
     map snd (filter (\<lambda>(k, c). room (clientObj s c) = Some r \<and> \<not> servermode (clientObj s c))
                (clients s))"

definition lobby_recipients :: "lobby \<Rightarrow> cref list" where
  "lobby_recipients s =
     map snd (filter (\<lambda>(k, c). map_of (clients s) k = Some c \<and> room (clientObj s c) = None)
                (clients s))"

text \<open>
  \<open>liveness_kept s s'\<close>: the step changed no session's \<open>lastActivity\<close> or \<open>beatWaiting\<close>.
  \<open>denials_justified s s'\<close>: the step changed no session's socket or key, added no session,
  and every frame \<open>denied,"key"\<close> it sent went to the socket of a registered session whose
  \<open>onlineKey\<close> is not truthy.
\<close>

definition liveness_kept :: "lobby \<Rightarrow> lobby \<Rightarrow> bool" where
  "liveness_kept s s' =
     (\<forall>x. lastActivity (clientObj s' x) = lastActivity (clientObj s x) \<and>
          beatWaiting (clientObj s' x) = beatWaiting (clientObj s x))"

definition denials_justified :: "lobby \<Rightarrow> lobby \<Rightarrow> bool" where
  "denials_justified s s' =
     ((\<forall>x. ws (clientObj s' x) = ws (clientObj s x) \<and>
           onlineKey (clientObj s' x) = onlineKey (clientObj s x)) \<and>
      set (clients s') \<subseteq> set (clients s) \<and>
      (\<exists>fs. sent s' = sent s @ fs \<and>
         (\<forall>p\<in>set fs. snd p = DeniedKey \<longrightarrow>
            (\<exists>k c. (k, c) \<in> set (clients s) \<and> ws (clientObj s c) = fst p \<and>
                   \<not> truthy (onlineKey (clientObj s c))))))"

text \<open>
  The sessions that are told \<open>selfclose\<close> when room \<open>r\<close> of the closing session \<open>c\<close> is
  removed: every other registered session whose room reference is \<open>r\<close>.
\<close>

definition selfclose_targets :: "lobby \<Rightarrow> rref \<Rightarrow> cref \<Rightarrow> cref list" where
  "selfclose_targets s r c =
     map snd (filter (\<lambda>(k, x). map_of (clients s) k = Some x \<and> room (clientObj s x) = Some r
                               \<and> x \<noteq> c)
                (clients s))"

text \<open>
  What a snapshot of the room list shows for a room: \<open>shown\<close> tells whether the room
  appears at all, \<open>entry_with\<close> is its entry for a given member count, and \<open>room_entry\<close> is
  the entry with the count taken over \<open>live_members\<close>.
\<close>

definition shown :: "lobby \<Rightarrow> rref \<Rightarrow> bool" where
  "shown s r =
     (room_servermode (roomObj s r) \<or>
      (room_owner (roomObj s r) \<noteq> None \<and> truthy (room_config (roomObj s r))))"

definition entry_with :: "lobby \<Rightarrow> nat option \<Rightarrow> rref \<Rightarrow> entry option" where
  "entry_with s n r =
     (if room_servermode (roomObj s r) then Some ServerMarker
      else case room_owner (roomObj s r) of
             None \<Rightarrow> None
           | Some ow \<Rightarrow>
               Some (RoomTuple (nickname (clientObj s ow)) (avatar (clientObj s ow))
                       (room_config (roomObj s r)) n (room_key (roomObj s r))))"

definition room_entry :: "lobby \<Rightarrow> rref \<Rightarrow> entry option" where
  "room_entry s r = entry_with s (Some (length (live_members s r))) r"

section \<open>Example states\<close>

text \<open>
  Two sessions connect to a new broker, on sockets 1 and 2, at times 0 and 5; they get the
  addresses 0 and 1.  In \<open>keyed_sessions\<close> the first has sent the key \<open>K1\<close>.
\<close>

definition two_sessions :: lobby where
  "two_sessions =
     final (fetch (final (fetch new_lobby 1 (lit ''ip1'') (lit ''1000000001'') 0))
              2 (lit ''ip2'') (lit ''1000000002'') 5)"

definition keyed_sessions :: lobby where
  "keyed_sessions = messages_key two_sessions 0 (JArr [JStr (lit ''K1'')])"


text \<open>
  In \<open>banned_ip_state\<close> the first session has sent an \<open>events\<close> command under a key that
  is not its own, which puts its address on the list of banned addresses.
  \<open>slot_state\<close> is \<open>two_sessions\<close> with a directory that holds one room slot without an
  owner, whose key is its index.
\<close>

definition banned_ip_state :: lobby where
  "banned_ip_state =
     messages_events two_sessions 0 JNull (JStr (lit ''K9'')) JUndef 7 (lit ''1000000009'')"

definition slot_state :: lobby where
  "slot_state =
     two_sessions\<lparr>rooms := [0], roomObj := (\<lambda>r. no_room)(0 := no_room\<lparr>room_key := JNum 0\<rparr>),
                   nextRoom := 1\<rparr>"


text \<open>
  \<open>host_claimed\<close>: the first session has claimed the free slot with \<open>server\<close> and no
  argument.  \<open>handoff_pending\<close>: the second session has then entered that room with a config
  and a mode.  \<open>room_created\<close>: the first session of \<open>keyed_sessions\<close> has created the room
  \<open>K1\<close>, which has no config yet.
\<close>

definition host_claimed :: lobby where
  "host_claimed = final (messages_server slot_state 0 JUndef)"

definition handoff_pending :: lobby where
  "handoff_pending =
     messages_enter host_claimed 1 (JNum 0) (JStr (lit ''Bob'')) (JStr (lit ''av2''))
       (JObj []) (JStr (lit ''manual''))"

definition room_created :: lobby where
  "room_created =
     messages_create keyed_sessions 0 (JStr (lit ''K1'')) (JStr (lit ''Alice'')) (JStr (lit ''av1''))"

text \<open>\<open>target_gone\<close>: with the handoff pending, the entrant's socket has closed.\<close>

definition target_gone :: lobby where
  "target_gone = handleClose handoff_pending 2"


text \<open>
  \<open>empty_key\<close>: the first session of \<open>two_sessions\<close> has sent, at time 1000, the command
  \<open>["server","key",[""]]\<close>, a key command whose key is the empty string.
\<close>

definition empty_key :: lobby where
  "empty_key =
     webSocketMessage two_sessions 1
       (Inbound (lit ''k'') (Some (JArr [JStr (lit ''server''), JStr (lit ''key''), JArr [JStr []]])))
       1000 (lit ''1000000009'')"


text \<open>
  \<open>room_open\<close>: the owner of room \<open>K1\<close> has published a config.  \<open>guest_joined\<close>: the
  second session has entered that room and is relayed through the owner.
\<close>

definition room_open :: lobby where
  "room_open = messages_config room_created 0 (JObj [])"

definition guest_joined :: lobby where
  "guest_joined =
     messages_enter room_open 1 (JStr (lit ''K1'')) (JStr (lit ''Bob'')) (JStr (lit ''av2''))
       JUndef JUndef"


text \<open>
  \<open>room_started\<close>: the owner of room \<open>K1\<close> has published a config that says the game has
  started.  \<open>host_refused\<close>: the second session has then asked for slot 5 of the directory
  with \<open>server\<close>, which does not exist.  \<open>entrant_refused\<close>: it has then tried to enter
  room \<open>K1\<close>.
\<close>

definition room_started :: lobby where
  "room_started = messages_config room_created 0 (JObj [(lit ''gameStarted'', JBool True)])"

definition host_refused :: lobby where
  "host_refused =
     final (messages_server room_started 1 (JArr [JNum 5, JStr (lit ''Host''), JStr (lit ''av'')]))"

definition entrant_refused :: lobby where
  "entrant_refused =
     messages_enter host_refused 1 (JStr (lit ''K1'')) (JStr (lit ''Bob'')) (JStr (lit ''av2''))
       JUndef JUndef"


text \<open>
  \<open>handoff_configured\<close>: the room of \<open>handoff_pending\<close>, still in servermode and with the
  handoff pending, carries a config.
\<close>

definition handoff_configured :: lobby where
  "handoff_configured = upd_room 0 (\<lambda>y. y\<lparr>room_config := JObj []\<rparr>) handoff_pending"


text \<open>
  \<open>restarted\<close>: a broker constructed on a host that still holds socket 1 of an earlier
  run, with its attachment.  \<open>new_registry\<close>: the registry of the rehydrating iteration
  after its constructor; \<open>first_meta\<close>: the attachment of a socket accepted at time 0.
\<close>

definition restarted :: lobby where
  "restarted =
     constructor [1] ((\<lambda>w. Absent)(1 := Wsid (lit ''1000000001''))) (\<lambda>w. False) (\<lambda>w. False)
       number_le (position standard_members)"

definition new_registry :: registry where
  "new_registry =
     \<lparr>reg_clients = [],
      reg_obj = (\<lambda>c. \<lparr>w_ws = 0, w_wsid = [], w_clientIp = [], w_nickname = [], w_avatar = JUndef,
                       w_room = None, w_owner = None, w_status = None, w_onlineKey = JUndef,
                       w_servermode = False, w_onconfig = None\<rparr>),
      reg_next = 0\<rparr>"

definition first_meta :: metadata where
  "first_meta =
     \<lparr>meta_wsid = lit ''1000000001'', meta_ip = lit ''ip1'', meta_joinedAt = 0,
      meta_verified = False\<rparr>"

section \<open>Basic facts\<close>

lemmas evals =
  fetch_def onConnect_def new_lobby_def constructor_def sendl_def closeClient_def cleanupClient_def
  ws_close_def scheduleAlarm_def getroomlist_def checkevents_def getclientlist_def
  clientrow_of_def upd_client_def upd_room_def map_delete_def lit_def
  two_sessions_def keyed_sessions_def messages_key_def

lemmas scenario_evals =
  slot_state_def host_claimed_def handoff_pending_def room_created_def no_room_def no_client_def
  messages_server_def messages_enter_def messages_create_def updaterooms_def quiet_def
  admission_refused_def

lemmas sweep_evals =
  alarm_def alarm_ws_def resolve_def empty_key_def webSocketMessage_def dispatch_def arg_def

lemmas close_evals =
  room_open_def guest_joined_def messages_config_def handleClose_def resolve_def
  updateclients_def set_index_def

lemma upd_client_fields [simp]:
  "rooms (upd_client c f s) = rooms s"
  "events (upd_client c f s) = events s"
  "clients (upd_client c f s) = clients s"
  "bannedKeys (upd_client c f s) = bannedKeys s"
  "bannedIps (upd_client c f s) = bannedIps s"
  "roomObj (upd_client c f s) = roomObj s"
  "nextRoom (upd_client c f s) = nextRoom s"
  "sent (upd_client c f s) = sent s"
  "closed (upd_client c f s) = closed s"
  "sendThrows (upd_client c f s) = sendThrows s"
  "closeThrows (upd_client c f s) = closeThrows s"
  "attachments (upd_client c f s) = attachments s"
  "websockets (upd_client c f s) = websockets s"
  "arrayMember (upd_client c f s) = arrayMember s"
  "clientObj (upd_client c f s) = (clientObj s)(c := f (clientObj s c))"
  by (simp_all add: upd_client_def)

lemma upd_room_fields [simp]:
  "rooms (upd_room r f s) = rooms s"
  "events (upd_room r f s) = events s"
  "clients (upd_room r f s) = clients s"
  "bannedKeys (upd_room r f s) = bannedKeys s"
  "bannedIps (upd_room r f s) = bannedIps s"
  "clientObj (upd_room r f s) = clientObj s"
  "nextRoom (upd_room r f s) = nextRoom s"
  "sent (upd_room r f s) = sent s"
  "closed (upd_room r f s) = closed s"
  "sendThrows (upd_room r f s) = sendThrows s"
  "closeThrows (upd_room r f s) = closeThrows s"
  "attachments (upd_room r f s) = attachments s"
  "websockets (upd_room r f s) = websockets s"
  "arrayMember (upd_room r f s) = arrayMember s"
  "roomObj (upd_room r f s) = (roomObj s)(r := f (roomObj s r))"
  by (simp_all add: upd_room_def)

lemma closeClient_fields [simp]:
  "rooms (closeClient s c) = rooms s"
  "events (closeClient s c) = events s"
  "bannedKeys (closeClient s c) = bannedKeys s"
  "bannedIps (closeClient s c) = bannedIps s"
  "clientObj (closeClient s c) = clientObj s"
  "roomObj (closeClient s c) = roomObj s"
  "nextRoom (closeClient s c) = nextRoom s"
  "sendThrows (closeClient s c) = sendThrows s"
  "closeThrows (closeClient s c) = closeThrows s"
  "attachments (closeClient s c) = attachments s"
  "websockets (closeClient s c) = websockets s"
  "arrayMember (closeClient s c) = arrayMember s"
  "sent (closeClient s c) = sent s"
  by (simp_all add: closeClient_def cleanupClient_def)

lemma sendl_fields [simp]:
  "rooms (sendl s c f) = rooms s"
  "events (sendl s c f) = events s"
  "bannedKeys (sendl s c f) = bannedKeys s"
  "bannedIps (sendl s c f) = bannedIps s"
  "clientObj (sendl s c f) = clientObj s"
  "roomObj (sendl s c f) = roomObj s"
  "nextRoom (sendl s c f) = nextRoom s"
  "sendThrows (sendl s c f) = sendThrows s"
  "closeThrows (sendl s c f) = closeThrows s"
  "attachments (sendl s c f) = attachments s"
  "websockets (sendl s c f) = websockets s"
  "arrayMember (sendl s c f) = arrayMember s"
  by (simp_all add: sendl_def)

section \<open>Creating a room\<close>

text \<open>
  C9.  The \<open>create\<close> command changes nothing and sends nothing unless the caller's
  \<open>onlineKey\<close> is strictly equal (\<open>===\<close>) to the key argument.  When it is, a new room is
  appended to the directory with the caller as owner and that key, no other room object
  changes, the caller's room reference points at the new room, its status is removed, and
  (when the send returns) the one frame sent is \<open>createroom,key\<close> on the caller's socket.
\<close>

theorem create_requires_key:
  "(\<not> strict_eq (onlineKey (clientObj s c)) key \<longrightarrow> messages_create s c key nick av = s) \<and>
   (strict_eq (onlineKey (clientObj s c)) key \<longrightarrow>
      (let s' = messages_create s c key nick av; r = nextRoom s
       in rooms s' = rooms s @ [r] \<and>
          roomObj s' r = \<lparr>room_owner = Some c, room_key = key, room_config = JUndef,
                           room_servermode = False\<rparr> \<and>
          (\<forall>x. x \<noteq> r \<longrightarrow> roomObj s' x = roomObj s x) \<and>
          room (clientObj s' c) = Some r \<and> status (clientObj s' c) = None \<and>
          (\<not> sendThrows s (ws (clientObj s c)) \<longrightarrow>
             sent s' = sent s @ [(ws (clientObj s c), Createroom key)])))"
  by (simp add: messages_create_def Let_def sendl_def)

theorem create_requires_key_witness:
  "strict_eq (onlineKey (clientObj keyed_sessions 0)) (JStr (lit ''K1'')) \<and>
   rooms (messages_create keyed_sessions 0 (JStr (lit ''K1'')) (JStr (lit ''Alice'')) JNull) = [0] \<and>
   room (clientObj (messages_create keyed_sessions 0 (JStr (lit ''K1'')) (JStr (lit ''Alice'')) JNull) 0)
     = Some 0 \<and>
   sent (messages_create keyed_sessions 0 (JStr (lit ''K1'')) (JStr (lit ''Alice'')) JNull)
     = sent keyed_sessions @ [(1, Createroom (JStr (lit ''K1'')))] \<and>
   \<not> strict_eq (onlineKey (clientObj keyed_sessions 1)) (JStr (lit ''K1'')) \<and>
   messages_create keyed_sessions 1 (JStr (lit ''K1'')) (JStr (lit ''Bob'')) JNull = keyed_sessions"
proof -
  have k0: "strict_eq (onlineKey (clientObj keyed_sessions 0)) (JStr (lit ''K1''))"
    by (simp add: evals)
  have k1: "\<not> strict_eq (onlineKey (clientObj keyed_sessions 1)) (JStr (lit ''K1''))"
    by (simp add: evals)
  have n: "nextRoom keyed_sessions = 0" "rooms keyed_sessions = []"
    "ws (clientObj keyed_sessions 0) = 1" "\<not> sendThrows keyed_sessions 1"
    by (simp_all add: evals)
  show ?thesis
    using k0 k1 n
      create_requires_key [of keyed_sessions 0 "JStr (lit ''K1'')" "JStr (lit ''Alice'')" JNull]
      create_requires_key [of keyed_sessions 1 "JStr (lit ''K1'')" "JStr (lit ''Bob'')" JNull]
    by (simp add: Let_def)
qed

section \<open>Connecting from a banned address\<close>

text \<open>
  C5, as stated, fails: a connection from a banned address is sent a reply, the frame
  \<open>denied,"banned"\<close>, before it is closed.
\<close>

theorem banned_connect_replies_counterexample:
  "lit ''ip1'' \<in> set (bannedIps banned_ip_state) \<and>
   sent (final (fetch banned_ip_state 3 (lit ''ip1'') (lit ''1000000003'') 9))
     = sent banned_ip_state @ [(3, DeniedBanned)]"
  by (simp add: banned_ip_state_def messages_events_def evals)

text \<open>
  C5, amended.  For a connection from a banned address, \<open>onConnect\<close> sends nothing but
  at most one frame \<open>denied,"banned"\<close> on the new socket (so no \<open>roomlist\<close> snapshot); it
  sends exactly that frame when the send returns, and it closes the socket and returns when
  \<open>close\<close> does not throw.
\<close>

theorem banned_connect_closed:
  "ip \<in> set (bannedIps s) \<longrightarrow>
     (let s' = final (onConnect s w ip ident time)
      in (sent s' = sent s \<or> sent s' = sent s @ [(w, DeniedBanned)]) \<and>
         (\<not> sendThrows s w \<longrightarrow> sent s' = sent s @ [(w, DeniedBanned)]) \<and>
         (\<not> closeThrows s w \<longrightarrow> w \<in> set (closed s') \<and> onConnect s w ip ident time = Inr s'))"
  by (simp add: onConnect_def Let_def sendl_def closeClient_def cleanupClient_def ws_close_def)

theorem banned_connect_closed_witness:
  "lit ''ip1'' \<in> set (bannedIps banned_ip_state) \<and>
   3 \<in> set (closed (final (onConnect banned_ip_state 3 (lit ''ip1'') (lit ''1000000003'') 9))) \<and>
   sent (final (onConnect banned_ip_state 3 (lit ''ip1'') (lit ''1000000003'') 9))
     = sent banned_ip_state @ [(3, DeniedBanned)]"
proof -
  have b: "lit ''ip1'' \<in> set (bannedIps banned_ip_state)" "\<not> closeThrows banned_ip_state 3"
    "\<not> sendThrows banned_ip_state 3"
    by (simp_all add: banned_ip_state_def messages_events_def evals)
  show ?thesis
    using b banned_connect_closed [of "lit ''ip1''" banned_ip_state 3 "lit ''1000000003''" 9]
    by (simp add: Let_def)
qed

section \<open>Facts about the broadcasts\<close>

lemma lobby_send_rel:
  assumes refl: "\<And>s. R s s"
    and trans: "\<And>a b c. R a b \<Longrightarrow> R b c \<Longrightarrow> R a c"
    and step: "\<And>s c. R s (sendl s c f)"
  shows "R s (lobby_send f cl s)"
proof (induction cl arbitrary: s)
  case Nil
  show ?case by (simp add: refl)
next
  case (Cons p cl)
  obtain k c where p: "p = (k, c)" by (cases p)
  have IH2: "R s (lobby_send f cl (sendl s c f))"
    by (rule trans [OF step Cons.IH])
  show ?case by (simp add: p Cons.IH IH2)
qed

lemma roomlist_loop_rel:
  assumes refl: "\<And>s. R s s"
    and trans: "\<And>a b c. R a b \<Longrightarrow> R b c \<Longrightarrow> R a c"
    and step: "\<And>s c. R s (sendl s c Reloadroom)"
  shows "R s (snd (roomlist_loop i rs m out s))"
proof (induction rs arbitrary: i m out s)
  case Nil
  show ?case by (simp add: refl)
next
  case (Cons r rs)
  have IH2: "\<And>i m out ow. R s (snd (roomlist_loop i rs m out (sendl s ow Reloadroom)))"
    by (rule trans [OF step Cons.IH])
  show ?case by (simp add: Let_def Cons.IH IH2 split: option.splits)
qed

lemma updaterooms_rel:
  assumes refl: "\<And>s. R s s"
    and trans: "\<And>a b c. R a b \<Longrightarrow> R b c \<Longrightarrow> R a c"
    and step: "\<And>s c f. f = Reloadroom \<or> (\<exists>rl cl. f = Updaterooms rl cl) \<Longrightarrow> R s (sendl s c f)"
  shows "R s (updaterooms s)"
proof -
  have s1: "\<And>s c. R s (sendl s c Reloadroom)" by (rule step) simp
  have s2: "\<And>s c rl cl. R s (sendl s c (Updaterooms rl cl))" by (rule step) simp
  have a: "R s (snd (getroomlist s))"
    unfolding getroomlist_def by (rule roomlist_loop_rel [OF refl trans s1])
  have "R (snd (getroomlist s)) (updaterooms s)"
    unfolding updaterooms_def split_def Let_def
    by (rule lobby_send_rel [OF refl trans s2])
  with a show ?thesis by (rule trans)
qed

lemma updateclients_rel:
  assumes refl: "\<And>s. R s s"
    and trans: "\<And>a b c. R a b \<Longrightarrow> R b c \<Longrightarrow> R a c"
    and step: "\<And>s c cl. R s (sendl s c (Updateclients cl))"
  shows "R s (updateclients s)"
  unfolding updateclients_def by (rule lobby_send_rel [OF refl trans step])

lemma io_only_refl [simp]: "io_only s s"
  by (simp add: io_only_def)

lemma io_only_trans: "io_only s s' \<Longrightarrow> io_only s' s'' \<Longrightarrow> io_only s s''"
  by (simp add: io_only_def)

lemma io_only_fields:
  "io_only s s' \<Longrightarrow> clientObj s' = clientObj s"
  "io_only s s' \<Longrightarrow> roomObj s' = roomObj s"
  "io_only s s' \<Longrightarrow> rooms s' = rooms s"
  "io_only s s' \<Longrightarrow> events s' = events s"
  "io_only s s' \<Longrightarrow> sendThrows s' = sendThrows s"
  "io_only s s' \<Longrightarrow> closeThrows s' = closeThrows s"
  "io_only s s' \<Longrightarrow> bannedIps s' = bannedIps s"
  "io_only s s' \<Longrightarrow> bannedKeys s' = bannedKeys s"
  "io_only s s' \<Longrightarrow> attachments s' = attachments s"
  "io_only s s' \<Longrightarrow> websockets s' = websockets s"
  "io_only s s' \<Longrightarrow> nextRoom s' = nextRoom s"
  "io_only s s' \<Longrightarrow> utcElapsed s' = utcElapsed s"
  "io_only s s' \<Longrightarrow> arrayMember s' = arrayMember s"
  by (simp_all add: io_only_def)

lemma io_only_sendl: "io_only s (sendl s c f)"
  by (simp add: io_only_def sendl_def closeClient_def cleanupClient_def)

lemma io_only_lobby_send: "io_only s (lobby_send f cl s)"
  by (rule lobby_send_rel [OF io_only_refl io_only_trans io_only_sendl])

lemma io_only_roomlist_loop: "io_only s (snd (roomlist_loop i rs m out s))"
  by (rule roomlist_loop_rel [OF io_only_refl io_only_trans io_only_sendl])

lemma io_only_getroomlist: "io_only s (snd (getroomlist s))"
  by (simp add: getroomlist_def io_only_roomlist_loop)

lemma io_only_updaterooms: "io_only s (updaterooms s)"
  by (rule updaterooms_rel [OF io_only_refl io_only_trans io_only_sendl])

lemma io_only_updateclients: "io_only s (updateclients s)"
  by (rule updateclients_rel [OF io_only_refl io_only_trans io_only_sendl])

lemmas updaterooms_fields [simp] = io_only_fields [OF io_only_updaterooms]
lemmas updateclients_fields [simp] = io_only_fields [OF io_only_updateclients]
lemmas getroomlist_fields [simp] = io_only_fields [OF io_only_getroomlist]
lemmas lobby_send_fields [simp] = io_only_fields [OF io_only_lobby_send]
lemmas roomlist_loop_fields [simp] = io_only_fields [OF io_only_roomlist_loop]

lemma adds_refl [simp]: "adds P s s"
  by (simp add: adds_def)

lemma adds_trans: "adds P s s' \<Longrightarrow> adds P s' s'' \<Longrightarrow> adds P s s''"
  unfolding adds_def by auto

lemma adds_sendl: "P f \<Longrightarrow> adds P s (sendl s c f)"
  by (simp add: adds_def sendl_def closeClient_def cleanupClient_def)

lemma adds_updaterooms:
  assumes "P Reloadroom" and "\<And>rl cl. P (Updaterooms rl cl)"
  shows "adds P s (updaterooms s)"
  by (rule updaterooms_rel [where R = "adds P", OF adds_refl adds_trans adds_sendl])
     (use assms in auto)

lemma adds_updateclients: "(\<And>cl. P (Updateclients cl)) \<Longrightarrow> adds P s (updateclients s)"
  by (rule updateclients_rel [where R = "adds P", OF adds_refl adds_trans adds_sendl])

lemma adds_mem: "adds P s s' \<Longrightarrow> p \<in> set (sent s) \<Longrightarrow> p \<in> set (sent s')"
  unfolding adds_def by auto

lemma map_of_map_delete: "map_of (map_delete k ps) k' = (if k' = k then None else map_of ps k')"
  by (induction ps) (auto simp: map_delete_def)

lemma shrinks_refl [simp]: "shrinks s s"
  by (simp add: shrinks_def)

lemma shrinks_trans: "shrinks s s' \<Longrightarrow> shrinks s' s'' \<Longrightarrow> shrinks s s''"
  unfolding shrinks_def
proof
  fix k
  assume a: "\<forall>k. map_of (clients s') k = None \<or> map_of (clients s') k = map_of (clients s) k"
    and b: "\<forall>k. map_of (clients s'') k = None \<or> map_of (clients s'') k = map_of (clients s') k"
  from a have "map_of (clients s') k = None \<or> map_of (clients s') k = map_of (clients s) k" ..
  moreover from b have "map_of (clients s'') k = None \<or> map_of (clients s'') k = map_of (clients s') k" ..
  ultimately show "map_of (clients s'') k = None \<or> map_of (clients s'') k = map_of (clients s) k"
    by auto
qed

lemma shrinks_sendl: "shrinks s (sendl s c f)"
  by (simp add: shrinks_def sendl_def closeClient_def cleanupClient_def map_of_map_delete)

lemma shrinks_updaterooms: "shrinks s (updaterooms s)"
  by (rule updaterooms_rel [OF shrinks_refl shrinks_trans shrinks_sendl])

lemma shrinks_updateclients: "shrinks s (updateclients s)"
  by (rule updateclients_rel [OF shrinks_refl shrinks_trans shrinks_sendl])

lemma quiet_sendl: "quiet s \<Longrightarrow> sendl s c f = s\<lparr>sent := sent s @ [(ws (clientObj s c), f)]\<rparr>"
  by (simp add: quiet_def sendl_def)

lemma quiet_fields [simp]:
  "quiet (upd_client c f s) = quiet s"
  "quiet (upd_room r g s) = quiet s"
  "quiet (sendl s c fr) = quiet s"
  "quiet (updaterooms s) = quiet s"
  "quiet (updateclients s) = quiet s"
  by (simp_all add: quiet_def)

lemma quiet_sendl_clients: "quiet s \<Longrightarrow> clients (sendl s c f) = clients s"
  by (simp add: quiet_sendl)

lemma quiet_updaterooms_clients: "quiet s \<Longrightarrow> clients (updaterooms s) = clients s"
proof -
  have "quiet s \<longrightarrow> clients (updaterooms s) = clients s \<and> quiet (updaterooms s)"
    by (rule updaterooms_rel [where R = "\<lambda>a b. quiet a \<longrightarrow> clients b = clients a \<and> quiet b"])
       (simp_all add: quiet_sendl_clients)
  then show "quiet s \<Longrightarrow> clients (updaterooms s) = clients s" by simp
qed

lemma quiet_lobby_send_gen:
  "quiet s \<Longrightarrow>
   lobby_send f cl s =
     s\<lparr>sent := sent s @ map (\<lambda>(k, c). (ws (clientObj s c), f))
               (filter (\<lambda>(k, c). map_of (clients s) k = Some c \<and> room (clientObj s c) = None) cl)\<rparr>"
proof (induction cl arbitrary: s)
  case Nil
  then show ?case by simp
next
  case (Cons p cl)
  obtain k c where p: "p = (k, c)" by (cases p)
  have q': "quiet (sendl s c f)" using Cons.prems by simp
  show ?case
    using Cons.IH [OF Cons.prems] Cons.IH [OF q']
    by (simp add: p quiet_sendl [OF Cons.prems])
qed

lemma quiet_lobby_send:
  "quiet s \<Longrightarrow>
   sent (lobby_send f (clients s) s) =
     sent s @ map (\<lambda>c. (ws (clientObj s c), f)) (lobby_recipients s)"
  by (simp add: quiet_lobby_send_gen lobby_recipients_def comp_def split_def)

section \<open>Publishing a config and the handoff\<close>






section \<open>The authentication timeout\<close>

lemma denials_justified_refl: "denials_justified s s"
  by (simp add: denials_justified_def)

lemma denials_justified_trans:
  assumes "denials_justified s s'" and "denials_justified s' s''"
  shows "denials_justified s s''"
proof -
  from assms(1) obtain fs where
    h1: "\<forall>x. ws (clientObj s' x) = ws (clientObj s x) \<and> onlineKey (clientObj s' x) = onlineKey (clientObj s x)"
    and c1: "set (clients s') \<subseteq> set (clients s)"
    and f1: "sent s' = sent s @ fs"
    and j1: "\<forall>p\<in>set fs. snd p = DeniedKey \<longrightarrow>
            (\<exists>k c. (k, c) \<in> set (clients s) \<and> ws (clientObj s c) = fst p \<and>
                   \<not> truthy (onlineKey (clientObj s c)))"
    unfolding denials_justified_def by blast
  from assms(2) obtain gs where
    h2: "\<forall>x. ws (clientObj s'' x) = ws (clientObj s' x) \<and> onlineKey (clientObj s'' x) = onlineKey (clientObj s' x)"
    and c2: "set (clients s'') \<subseteq> set (clients s')"
    and f2: "sent s'' = sent s' @ gs"
    and j2: "\<forall>p\<in>set gs. snd p = DeniedKey \<longrightarrow>
            (\<exists>k c. (k, c) \<in> set (clients s') \<and> ws (clientObj s' c) = fst p \<and>
                   \<not> truthy (onlineKey (clientObj s' c)))"
    unfolding denials_justified_def by blast
  have j2': "\<forall>p\<in>set gs. snd p = DeniedKey \<longrightarrow>
            (\<exists>k c. (k, c) \<in> set (clients s) \<and> ws (clientObj s c) = fst p \<and>
                   \<not> truthy (onlineKey (clientObj s c)))"
  proof (intro ballI impI)
    fix p assume "p \<in> set gs" and "snd p = DeniedKey"
    with j2 obtain k c where "(k, c) \<in> set (clients s')" "ws (clientObj s' c) = fst p"
      "\<not> truthy (onlineKey (clientObj s' c))" by blast
    with h1 c1 show "\<exists>k c. (k, c) \<in> set (clients s) \<and> ws (clientObj s c) = fst p \<and>
                   \<not> truthy (onlineKey (clientObj s c))"
      by auto
  qed
  have "sent s'' = sent s @ (fs @ gs)" using f1 f2 by simp
  moreover have "\<forall>p\<in>set (fs @ gs). snd p = DeniedKey \<longrightarrow>
            (\<exists>k c. (k, c) \<in> set (clients s) \<and> ws (clientObj s c) = fst p \<and>
                   \<not> truthy (onlineKey (clientObj s c)))"
    using j1 j2' by auto
  ultimately have ex: "\<exists>hs. sent s'' = sent s @ hs \<and>
         (\<forall>p\<in>set hs. snd p = DeniedKey \<longrightarrow>
            (\<exists>k c. (k, c) \<in> set (clients s) \<and> ws (clientObj s c) = fst p \<and>
                   \<not> truthy (onlineKey (clientObj s c))))"
    by blast
  have heap: "\<forall>x. ws (clientObj s'' x) = ws (clientObj s x) \<and>
           onlineKey (clientObj s'' x) = onlineKey (clientObj s x)"
    using h1 h2 by simp
  have sub: "set (clients s'') \<subseteq> set (clients s)"
    using c1 c2 by blast
  show ?thesis
    unfolding denials_justified_def using heap sub ex by (intro conjI)
qed

lemma set_map_delete: "set (map_delete k ps) \<subseteq> set ps"
  by (auto simp: map_delete_def)

lemma alarm_ws_denials: "denials_justified s (final (alarm_ws time w s))"
proof (cases "resolve s w")
  case None
  then show ?thesis
    by (simp add: alarm_ws_def ws_close_def denials_justified_def)
next
  case (Some c)
  have mem: "\<exists>k. (k, c) \<in> set (clients s)"
    using Some by (auto simp: resolve_def split: attachment.splits if_splits dest: map_of_SomeD)
  show ?thesis
    using mem set_map_delete [of "wsid (clientObj s c)" "clients s"]
    by (auto simp add: alarm_ws_def Some ws_close_def denials_justified_def sendl_def
        closeClient_def cleanupClient_def Let_def)
qed

lemma alarm_loop_denials: "denials_justified s (final (alarm_loop time socks s))"
proof (induction socks arbitrary: s)
  case Nil
  show ?case by (simp add: denials_justified_refl)
next
  case (Cons w socks)
  show ?case
  proof (cases "alarm_ws time w s")
    case (Inl e)
    then show ?thesis using alarm_ws_denials [of s time w] by simp
  next
    case (Inr s')
    then have "denials_justified s s'" using alarm_ws_denials [of s time w] by simp
    then show ?thesis
      using Inr Cons.IH [of s'] by (simp add: denials_justified_trans)
  qed
qed

lemma alarm_denials: "denials_justified s (final (alarm s time))"
proof -
  have "denials_justified s (final (alarm_loop time (websockets s) s))"
    by (rule alarm_loop_denials)
  then show ?thesis
    by (auto simp add: alarm_def denials_justified_def split: sum.splits)
qed

lemma auth_timeout_step:
  assumes "resolve s w = Some c" and "onlineKey (clientObj s c) = JNull"
    and "\<not> banned (clientObj s c)" and "time - connectTime (clientObj s c) > 2000"
  shows "let r = alarm_ws time w s; s' = final r
         in banned (clientObj s' c) \<and>
            (\<not> sendThrows s (ws (clientObj s c)) \<longrightarrow>
               sent s' = sent s @ [(ws (clientObj s c), DeniedKey)]) \<and>
            (\<not> closeThrows s w \<longrightarrow> w \<in> set (closed s') \<and> r = Inr s')"
  using assms by (simp add: alarm_ws_def ws_close_def Let_def sendl_def)

lemma authenticated_step:
  assumes "resolve s w = Some c" and "truthy (onlineKey (clientObj s c))"
    and "time - lastActivity (clientObj s c) \<le> 60000"
  shows "alarm_ws time w s = Inr s"
  using assms by (simp add: alarm_ws_def)

text \<open>
  C3 fails on the code.  A key command with a falsy key, here the empty string, is accepted
  like any other: the broker sends nothing, closes nothing and stores the key.  The sweep
  tests the stored key for truthiness instead of the fact that a key command succeeded, so
  at time 3000 it still sends this session \<open>denied,"key"\<close> and closes its socket.
\<close>

theorem falsy_key_denied:
  "resolve two_sessions 1 = Some 0 \<and>
   onlineKey (clientObj empty_key 0) = JStr [] \<and>
   sent empty_key = sent two_sessions \<and> closed empty_key = closed two_sessions \<and>
   clients empty_key = clients two_sessions \<and>
   alarm_ws 3000 1 empty_key
     = Inr (final (alarm_ws 3000 1 empty_key)) \<and>
   sent (final (alarm_ws 3000 1 empty_key)) = sent empty_key @ [(1, DeniedKey)] \<and>
   closed (final (alarm_ws 3000 1 empty_key)) = closed empty_key @ [1] \<and>
   (1, DeniedKey) \<in> set (sent (final (alarm empty_key 3000))) \<and>
   1 \<in> set (closed (final (alarm empty_key 3000)))"
  by (simp add: sweep_evals evals)

section \<open>The heartbeat\<close>

lemma updateevents_clientObj [simp]: "clientObj (updateevents s t) = clientObj s"
  by (simp add: updateevents_def checkevents_def Let_def)

lemma create_liveness: "liveness_kept s (messages_create s c k n a)"
  by (simp add: liveness_kept_def messages_create_def Let_def)

lemma enter_liveness: "liveness_kept s (messages_enter s c k n a cf mo)"
  by (simp add: liveness_kept_def messages_enter_def Let_def split: option.splits)

lemma changeAvatar_liveness: "liveness_kept s (messages_changeAvatar s c n a)"
  by (simp add: liveness_kept_def messages_changeAvatar_def)

lemma server_liveness: "liveness_kept s (final (messages_server s c cf))"
  by (simp add: liveness_kept_def messages_server_def server_claim_def Let_def
      split: option.splits slot.splits)

lemma key_liveness: "liveness_kept s (messages_key s c i)"
  by (simp add: liveness_kept_def messages_key_def)

lemma events_liveness: "liveness_kept s (messages_events s c cf i ty t fr)"
  by (simp add: liveness_kept_def messages_events_def Let_def split_def split: json.splits)

lemma config_liveness: "liveness_kept s (messages_config s c cf)"
  by (simp add: liveness_kept_def messages_config_def Let_def split: option.splits)

lemma status_liveness: "liveness_kept s (messages_status s c st)"
  by (simp add: liveness_kept_def messages_status_def split: json.splits)

lemma send_liveness: "liveness_kept s (messages_send s c i m)"
  by (simp add: liveness_kept_def messages_send_def split: option.splits)

lemma close_liveness: "liveness_kept s (messages_close s c i)"
  by (simp add: liveness_kept_def messages_close_def split: option.splits)

lemma liveness_kept_refl: "liveness_kept s s"
  by (simp add: liveness_kept_def)

lemma dispatch_liveness: "liveness_kept s (dispatch s c type a time fresh)"
  unfolding dispatch_def
  by (simp add: create_liveness enter_liveness changeAvatar_liveness server_liveness
      key_liveness events_liveness config_liveness status_liveness send_liveness
      close_liveness liveness_kept_refl split: option.splits)

lemma inbound_touches:
  assumes "resolve s w = Some c"
  shows "let s' = webSocketMessage s w message time fresh
         in lastActivity (clientObj s' c) = time \<and> \<not> beatWaiting (clientObj s' c)"
proof -
  obtain msg parsed where m: "message = Inbound msg parsed" by (cases message)
  define s1 where "s1 = upd_client c (\<lambda>x. x\<lparr>lastActivity := time, beatWaiting := False\<rparr>) s"
  have s1: "lastActivity (clientObj s1 c) = time" "\<not> beatWaiting (clientObj s1 c)"
    by (simp_all add: s1_def)
  have d: "\<And>ty a. lastActivity (clientObj (dispatch s1 c ty a time fresh) c) = time \<and>
     \<not> beatWaiting (clientObj (dispatch s1 c ty a time fresh) c)"
    using dispatch_liveness [of s1 c] s1 by (simp add: liveness_kept_def)
  show ?thesis
    using assms s1 d
    by (simp add: webSocketMessage_def m Let_def s1_def [symmetric]
        split: option.splits json.splits)
qed

lemma heartbeat_step:
  assumes "resolve s w = Some c"
    and "truthy (onlineKey (clientObj s c)) \<or> banned (clientObj s c)
         \<or> time - connectTime (clientObj s c) \<le> 2000"
    and "time - lastActivity (clientObj s c) > 60000"
  shows "(beatWaiting (clientObj s c) \<longrightarrow>
            alarm_ws time w s = ws_close w s \<and>
            sent (final (alarm_ws time w s)) = sent s \<and>
            (\<not> closeThrows s w \<longrightarrow> closed (final (alarm_ws time w s)) = closed s @ [w])) \<and>
         (\<not> beatWaiting (clientObj s c) \<and> \<not> sendThrows s w \<longrightarrow>
            alarm_ws time w s = Inr (final (alarm_ws time w s)) \<and>
            beatWaiting (clientObj (final (alarm_ws time w s)) c) \<and>
            sent (final (alarm_ws time w s)) = sent s @ [(w, HeartbeatText)] \<and>
            closed (final (alarm_ws time w s)) = closed s)"
  using assms by (auto simp add: alarm_ws_def ws_close_def Let_def)

lemma resolve_same:
  "attachments s' = attachments s \<Longrightarrow> clients s' = clients s \<Longrightarrow> resolve s' w = resolve s w"
  by (cases "attachments s w") (simp_all add: resolve_def)

lemma two_sweeps:
  assumes r: "resolve s w = Some c"
    and auth: "truthy (onlineKey (clientObj s c)) \<or> banned (clientObj s c)"
    and idle: "time - lastActivity (clientObj s c) > 60000" and later: "time \<le> time'"
    and nb: "\<not> beatWaiting (clientObj s c)" and ns: "\<not> sendThrows s w" and nc: "\<not> closeThrows s w"
  shows "let s1 = final (alarm_ws time w s); s2 = final (alarm_ws time' w s1)
         in sent s1 = sent s @ [(w, HeartbeatText)] \<and> closed s1 = closed s \<and>
            sent s2 = sent s1 \<and> closed s2 = closed s @ [w]"
proof -
  define s1 where "s1 = (upd_client c (\<lambda>x. x\<lparr>beatWaiting := True\<rparr>) s)\<lparr>sent := sent s @ [(w, HeartbeatText)]\<rparr>"
  have step1: "alarm_ws time w s = Inr s1"
    using r auth idle nb ns by (auto simp add: alarm_ws_def Let_def s1_def)
  have r1: "resolve s1 w = Some c"
    using r resolve_same [of s1 s w] by (simp add: s1_def)
  have f1: "truthy (onlineKey (clientObj s1 c)) \<or> banned (clientObj s1 c)"
    "time' - lastActivity (clientObj s1 c) > 60000" "beatWaiting (clientObj s1 c)"
    "\<not> closeThrows s1 w"
    using auth idle later nc by (auto simp add: s1_def)
  have step2: "alarm_ws time' w s1 = Inr (s1\<lparr>closed := closed s1 @ [w]\<rparr>)"
    using r1 f1 by (auto simp add: alarm_ws_def ws_close_def)
  have f2: "sent s1 = sent s @ [(w, HeartbeatText)]" "closed s1 = closed s"
    by (simp_all add: s1_def)
  show ?thesis
    by (simp add: Let_def step1 step2 f2)
qed

text \<open>
  C4, as stated, fails: a session without a key that has been idle for more than 60000 ms
  and has no probe outstanding gets no \<open>heartbeat\<close> frame and its flag stays clear; the
  sweep sends it \<open>denied,"key"\<close> and closes it.
\<close>

theorem idle_without_key_counterexample:
  "resolve two_sessions 1 = Some 0 \<and> 70000 - lastActivity (clientObj two_sessions 0) > 60000 \<and>
   \<not> beatWaiting (clientObj two_sessions 0) \<and>
   \<not> beatWaiting (clientObj (final (alarm two_sessions 70000)) 0) \<and>
   sent (final (alarm two_sessions 70000)) = sent two_sessions @ [(1, DeniedKey), (2, DeniedKey)]"
  by (simp add: sweep_evals evals)

text \<open>
  C4, amended.  For a socket \<open>w\<close> of the sweep that resolves to a session \<open>c\<close> which the
  authentication timeout does not close in this round (it has a truthy key, or was denied
  before, or connected at most 2000 ms ago) and which has been idle for more than 60000 ms:
  if its flag is set, the round closes the socket and sends nothing; if not, and the send
  returns, the round sets the flag, sends the one text \<open>heartbeat\<close> and closes nothing.
  A second round at a later time, with no traffic in between, sends nothing more and closes
  the socket.  Any inbound message on a socket that resolves to \<open>c\<close> sets \<open>lastActivity\<close>
  to the time of arrival and clears the flag.
\<close>

theorem heartbeat_sweep:
  "(resolve s w = Some c \<and>
    (truthy (onlineKey (clientObj s c)) \<or> banned (clientObj s c)
       \<or> time - connectTime (clientObj s c) \<le> 2000) \<and>
    time - lastActivity (clientObj s c) > 60000 \<longrightarrow>
      (beatWaiting (clientObj s c) \<longrightarrow>
         alarm_ws time w s = ws_close w s \<and>
         sent (final (alarm_ws time w s)) = sent s \<and>
         (\<not> closeThrows s w \<longrightarrow> closed (final (alarm_ws time w s)) = closed s @ [w])) \<and>
      (\<not> beatWaiting (clientObj s c) \<and> \<not> sendThrows s w \<longrightarrow>
         alarm_ws time w s = Inr (final (alarm_ws time w s)) \<and>
         beatWaiting (clientObj (final (alarm_ws time w s)) c) \<and>
         sent (final (alarm_ws time w s)) = sent s @ [(w, HeartbeatText)] \<and>
         closed (final (alarm_ws time w s)) = closed s)) \<and>
   (resolve s w = Some c \<and>
    (truthy (onlineKey (clientObj s c)) \<or> banned (clientObj s c)) \<and>
    time - lastActivity (clientObj s c) > 60000 \<and> time \<le> time' \<and>
    \<not> beatWaiting (clientObj s c) \<and> \<not> sendThrows s w \<and> \<not> closeThrows s w \<longrightarrow>
      (let s1 = final (alarm_ws time w s); s2 = final (alarm_ws time' w s1)
       in sent s1 = sent s @ [(w, HeartbeatText)] \<and> closed s1 = closed s \<and>
          sent s2 = sent s1 \<and> closed s2 = closed s @ [w])) \<and>
   (resolve s w = Some c \<longrightarrow>
      (let s' = webSocketMessage s w message time fresh
       in lastActivity (clientObj s' c) = time \<and> \<not> beatWaiting (clientObj s' c)))"
proof (intro conjI)
  show "resolve s w = Some c \<and>
    (truthy (onlineKey (clientObj s c)) \<or> banned (clientObj s c)
       \<or> time - connectTime (clientObj s c) \<le> 2000) \<and>
    time - lastActivity (clientObj s c) > 60000 \<longrightarrow>
      (beatWaiting (clientObj s c) \<longrightarrow>
         alarm_ws time w s = ws_close w s \<and>
         sent (final (alarm_ws time w s)) = sent s \<and>
         (\<not> closeThrows s w \<longrightarrow> closed (final (alarm_ws time w s)) = closed s @ [w])) \<and>
      (\<not> beatWaiting (clientObj s c) \<and> \<not> sendThrows s w \<longrightarrow>
         alarm_ws time w s = Inr (final (alarm_ws time w s)) \<and>
         beatWaiting (clientObj (final (alarm_ws time w s)) c) \<and>
         sent (final (alarm_ws time w s)) = sent s @ [(w, HeartbeatText)] \<and>
         closed (final (alarm_ws time w s)) = closed s)"
    using heartbeat_step [of s w c time] by blast
next
  show "resolve s w = Some c \<and>
    (truthy (onlineKey (clientObj s c)) \<or> banned (clientObj s c)) \<and>
    time - lastActivity (clientObj s c) > 60000 \<and> time \<le> time' \<and>
    \<not> beatWaiting (clientObj s c) \<and> \<not> sendThrows s w \<and> \<not> closeThrows s w \<longrightarrow>
      (let s1 = final (alarm_ws time w s); s2 = final (alarm_ws time' w s1)
       in sent s1 = sent s @ [(w, HeartbeatText)] \<and> closed s1 = closed s \<and>
          sent s2 = sent s1 \<and> closed s2 = closed s @ [w])"
    using two_sweeps [of s w c time time'] by blast
next
  show "resolve s w = Some c \<longrightarrow>
      (let s' = webSocketMessage s w message time fresh
       in lastActivity (clientObj s' c) = time \<and> \<not> beatWaiting (clientObj s' c))"
    using inbound_touches [of s w c message time fresh] by blast
qed

theorem heartbeat_sweep_witness:
  "resolve keyed_sessions 1 = Some 0 \<and> truthy (onlineKey (clientObj keyed_sessions 0)) \<and>
   70000 - lastActivity (clientObj keyed_sessions 0) > 60000 \<and>
   \<not> beatWaiting (clientObj keyed_sessions 0) \<and>
   sent (final (alarm_ws 70000 1 keyed_sessions)) = sent keyed_sessions @ [(1, HeartbeatText)] \<and>
   closed (final (alarm_ws 70000 1 keyed_sessions)) = closed keyed_sessions \<and>
   closed (final (alarm_ws 80000 1 (final (alarm_ws 70000 1 keyed_sessions))))
     = closed keyed_sessions @ [1] \<and>
   lastActivity (clientObj (webSocketMessage keyed_sessions 1 (Inbound (lit ''heartbeat'') None)
                              75000 (lit ''1000000009'')) 0) = 75000"
proof -
  have a: "resolve keyed_sessions 1 = Some 0" "truthy (onlineKey (clientObj keyed_sessions 0))"
    "70000 - lastActivity (clientObj keyed_sessions 0) > 60000"
    "\<not> beatWaiting (clientObj keyed_sessions 0)"
    "\<not> sendThrows keyed_sessions 1" "\<not> closeThrows keyed_sessions 1"
    by (simp_all add: sweep_evals evals)
  note T = heartbeat_sweep [where s = keyed_sessions and w = 1 and c = 0 and time = 70000
      and time' = 80000]
  have p1: "sent (final (alarm_ws 70000 1 keyed_sessions)) = sent keyed_sessions @ [(1, HeartbeatText)] \<and>
      closed (final (alarm_ws 70000 1 keyed_sessions)) = closed keyed_sessions"
    using T [THEN conjunct1] a by simp
  have p2: "closed (final (alarm_ws 80000 1 (final (alarm_ws 70000 1 keyed_sessions))))
     = closed keyed_sessions @ [1]"
    using T [THEN conjunct2, THEN conjunct1] a by (simp add: Let_def)
  have p3: "lastActivity (clientObj (webSocketMessage keyed_sessions 1 (Inbound (lit ''heartbeat'') None)
                              75000 (lit ''1000000009'')) 0) = 75000"
    using heartbeat_sweep [where s = keyed_sessions and w = 1 and c = 0 and time = 75000
        and message = "Inbound (lit ''heartbeat'') None" and fresh = "lit ''1000000009''",
        THEN conjunct2, THEN conjunct2] a(1)
    by (simp add: Let_def)
  show ?thesis
    using a(1-4) p1 p2 p3 by simp
qed

section \<open>Disconnecting\<close>

lemma selfclose_loop_rel:
  assumes refl: "\<And>s. R s s"
    and trans: "\<And>a b c. R a b \<Longrightarrow> R b c \<Longrightarrow> R a c"
    and step: "\<And>s x. R s (sendl s x Selfclose)"
  shows "R s (selfclose_loop r c cl s)"
proof (induction cl arbitrary: s)
  case Nil
  show ?case by (simp add: refl)
next
  case (Cons p cl)
  obtain k x where p: "p = (k, x)" by (cases p)
  have IH2: "R s (selfclose_loop r c cl (sendl s x Selfclose))"
    by (rule trans [OF step Cons.IH])
  show ?case by (simp add: p Cons.IH IH2)
qed

lemma close_rooms_rel:
  assumes refl: "\<And>s. R s s"
    and trans: "\<And>a b c. R a b \<Longrightarrow> R b c \<Longrightarrow> R a c"
    and step: "\<And>s x. R s (sendl s x Selfclose)"
  shows "R s (snd (close_rooms c rs s))"
proof (induction rs arbitrary: s)
  case Nil
  show ?case by (simp add: refl)
next
  case (Cons r rs)
  have IH2: "R s (snd (close_rooms c rs (selfclose_loop r c (clients s) s)))"
    by (rule trans [OF selfclose_loop_rel [OF refl trans step] Cons.IH])
  show ?case by (simp add: Cons.IH IH2 split_def Let_def)
qed

lemma io_only_selfclose_loop: "io_only s (selfclose_loop r c cl s)"
  by (rule selfclose_loop_rel [OF io_only_refl io_only_trans io_only_sendl])

lemma io_only_close_rooms: "io_only s (snd (close_rooms c rs s))"
  by (rule close_rooms_rel [OF io_only_refl io_only_trans io_only_sendl])

lemmas selfclose_loop_fields [simp] = io_only_fields [OF io_only_selfclose_loop]
lemmas close_rooms_fields [simp] = io_only_fields [OF io_only_close_rooms]

lemma close_rooms_keep:
  "fst (close_rooms c rs s) = filter (\<lambda>r. room_owner (roomObj s r) \<noteq> Some c) rs"
  by (induction rs arbitrary: s) (simp_all add: split_def)

lemma quiet_selfclose_loop:
  "quiet s \<Longrightarrow>
   selfclose_loop r c cl s =
     s\<lparr>sent := sent s @ map (\<lambda>(k, x). (ws (clientObj s x), Selfclose))
               (filter (\<lambda>(k, x). map_of (clients s) k = Some x \<and> room (clientObj s x) = Some r \<and> x \<noteq> c) cl)\<rparr>"
proof (induction cl arbitrary: s)
  case Nil
  then show ?case by simp
next
  case (Cons p cl)
  obtain k x where p: "p = (k, x)" by (cases p)
  have q': "quiet (sendl s x Selfclose)" using Cons.prems by simp
  show ?case
    using Cons.IH [OF Cons.prems] Cons.IH [OF q']
    by (simp add: p quiet_sendl [OF Cons.prems])
qed

lemma quiet_selfclose_all:
  "quiet s \<Longrightarrow>
   selfclose_loop r c (clients s) s =
     s\<lparr>sent := sent s @ map (\<lambda>x. (ws (clientObj s x), Selfclose)) (selfclose_targets s r c)\<rparr>"
  by (simp add: quiet_selfclose_loop selfclose_targets_def comp_def split_def)

lemma selfclose_targets_sent [simp]:
  "selfclose_targets (s\<lparr>sent := x\<rparr>) r c = selfclose_targets s r c"
  by (simp add: selfclose_targets_def)

lemma quiet_sent_update [simp]: "quiet (s\<lparr>sent := x\<rparr>) = quiet s"
  by (simp add: quiet_def)

lemma quiet_close_rooms:
  "quiet s \<Longrightarrow>
   snd (close_rooms c rs s) =
     s\<lparr>sent := sent s @ concat (map (\<lambda>r. map (\<lambda>x. (ws (clientObj s x), Selfclose)) (selfclose_targets s r c))
               (filter (\<lambda>r. room_owner (roomObj s r) = Some c) rs))\<rparr>"
proof (induction rs arbitrary: s)
  case Nil
  then show ?case by simp
next
  case (Cons r rs)
  show ?case
  proof (cases "room_owner (roomObj s r) = Some c")
    case True
    define s' where "s' = s\<lparr>sent := sent s @ map (\<lambda>x. (ws (clientObj s x), Selfclose)) (selfclose_targets s r c)\<rparr>"
    have q': "quiet s'" using Cons.prems by (simp add: s'_def)
    have "snd (close_rooms c (r # rs) s) = snd (close_rooms c rs s')"
      using True by (simp add: quiet_selfclose_all [OF Cons.prems] s'_def)
    also have "\<dots> = s'\<lparr>sent := sent s' @ concat (map (\<lambda>r. map (\<lambda>x. (ws (clientObj s' x), Selfclose)) (selfclose_targets s' r c))
               (filter (\<lambda>r. room_owner (roomObj s' r) = Some c) rs))\<rparr>"
      by (rule Cons.IH [OF q'])
    finally show ?thesis
      using True by (simp add: s'_def)
  next
    case False
    then show ?thesis
      using Cons.IH [OF Cons.prems] by (simp add: split_def)
  qed
qed

lemma shrinks_None: "shrinks s s' \<Longrightarrow> map_of (clients s) k = None \<Longrightarrow> map_of (clients s') k = None"
  unfolding shrinks_def by metis

lemma handleClose_effect:
  assumes r: "resolve s w = Some c"
  shows "let s' = handleClose s w
         in rooms s' = filter (\<lambda>r. room_owner (roomObj s r) \<noteq> Some c) (rooms s) \<and>
            clientObj s' = clientObj s \<and> roomObj s' = roomObj s \<and>
            map_of (clients s') (wsid (clientObj s c)) = None"
proof -
  define s1 where "s1 = snd (close_rooms c (rooms s) s)"
  define s2 where "s2 = s1\<lparr>rooms := fst (close_rooms c (rooms s) s)\<rparr>"
  define s3 where "s3 = (case owner (clientObj s2 c) of
                       Some ow \<Rightarrow> sendl s2 ow (Onclose (wsid (clientObj s2 c)))
                     | None \<Rightarrow> s2)"
  define s4 where "s4 = cleanupClient s3 c"
  have h: "handleClose s w = (if room (clientObj s4 c) \<noteq> None then updaterooms s4 else updateclients s4)"
    unfolding handleClose_def r s4_def s3_def s2_def s1_def by (simp add: split_def Let_def)
  have f3: "clientObj s3 = clientObj s" "roomObj s3 = roomObj s"
    "rooms s3 = filter (\<lambda>r. room_owner (roomObj s r) \<noteq> Some c) (rooms s)"
    by (simp_all add: s3_def s2_def s1_def close_rooms_keep split: option.splits)
  have f4: "clientObj s4 = clientObj s" "roomObj s4 = roomObj s"
    "rooms s4 = filter (\<lambda>r. room_owner (roomObj s r) \<noteq> Some c) (rooms s)"
    "map_of (clients s4) (wsid (clientObj s c)) = None"
    by (simp_all add: s4_def cleanupClient_def f3 map_of_map_delete)
  have "map_of (clients (handleClose s w)) (wsid (clientObj s c)) = None"
    unfolding h using shrinks_None [OF shrinks_updaterooms f4(4)] shrinks_None [OF shrinks_updateclients f4(4)]
    by simp
  then show ?thesis
    unfolding Let_def using f4(1-3) by (simp add: h)
qed

lemma handleClose_quiet:
  assumes r: "resolve s w = Some c" and q: "quiet s"
  shows "let cleaned = s\<lparr>rooms := filter (\<lambda>r. room_owner (roomObj s r) \<noteq> Some c) (rooms s),
                         clients := map_delete (wsid (clientObj s c)) (clients s),
                         sent := sent s
                           @ concat (map (\<lambda>r. map (\<lambda>x. (ws (clientObj s x), Selfclose)) (selfclose_targets s r c))
                                       (filter (\<lambda>r. room_owner (roomObj s r) = Some c) (rooms s)))
                           @ (case owner (clientObj s c) of
                                Some ow \<Rightarrow> [(ws (clientObj s ow), Onclose (wsid (clientObj s c)))]
                              | None \<Rightarrow> [])\<rparr>
         in handleClose s w =
              (if room (clientObj s c) \<noteq> None then updaterooms cleaned else updateclients cleaned)"
proof -
  define A where "A = concat (map (\<lambda>r. map (\<lambda>x. (ws (clientObj s x), Selfclose)) (selfclose_targets s r c))
                                       (filter (\<lambda>r. room_owner (roomObj s r) = Some c) (rooms s)))"
  define keep where "keep = filter (\<lambda>r. room_owner (roomObj s r) \<noteq> Some c) (rooms s)"
  define s2 where "s2 = (snd (close_rooms c (rooms s) s))\<lparr>rooms := fst (close_rooms c (rooms s) s)\<rparr>"
  define s3 where "s3 = (case owner (clientObj s2 c) of
                       Some ow \<Rightarrow> sendl s2 ow (Onclose (wsid (clientObj s2 c)))
                     | None \<Rightarrow> s2)"
  define s4 where "s4 = cleanupClient s3 c"
  have h: "handleClose s w = (if room (clientObj s4 c) \<noteq> None then updaterooms s4 else updateclients s4)"
    unfolding handleClose_def r s4_def s3_def s2_def by (simp add: split_def Let_def)
  have e2: "s2 = s\<lparr>sent := sent s @ A, rooms := keep\<rparr>"
    by (simp add: s2_def quiet_close_rooms [OF q] close_rooms_keep A_def keep_def)
  have q2: "quiet s2" using q by (simp add: e2 quiet_def)
  have e3: "s3 = s\<lparr>sent := sent s @ A @ (case owner (clientObj s c) of
                                Some ow \<Rightarrow> [(ws (clientObj s ow), Onclose (wsid (clientObj s c)))]
                              | None \<Rightarrow> []), rooms := keep\<rparr>"
  proof (cases "owner (clientObj s c)")
    case None
    then show ?thesis by (simp add: s3_def e2)
  next
    case (Some ow)
    then have "s3 = sendl s2 ow (Onclose (wsid (clientObj s2 c)))"
      by (simp add: s3_def e2)
    then show ?thesis
      using Some by (simp add: quiet_sendl [OF q2]) (simp add: e2)
  qed
  have e4: "s4 = s\<lparr>rooms := keep, clients := map_delete (wsid (clientObj s c)) (clients s),
       sent := sent s @ A @ (case owner (clientObj s c) of
                                Some ow \<Rightarrow> [(ws (clientObj s ow), Onclose (wsid (clientObj s c)))]
                              | None \<Rightarrow> [])\<rparr>"
    by (simp add: s4_def cleanupClient_def e3)
  have rm: "room (clientObj s4 c) = room (clientObj s c)" by (simp add: e4)
  show ?thesis
    unfolding Let_def h rm by (simp add: e4 A_def keep_def)
qed

text \<open>
  C6, as stated, fails: when the owner of a room disconnects, a guest of that room is sent
  \<open>selfclose\<close> and the room is removed, but the guest's room reference still points at the
  removed room afterwards.
\<close>

theorem owner_close_keeps_guest_room_counterexample:
  "resolve guest_joined 1 = Some 0 \<and> room_owner (roomObj guest_joined 0) = Some 0 \<and>
   room (clientObj guest_joined 1) = Some 0 \<and>
   rooms (handleClose guest_joined 1) = [] \<and>
   (2, Selfclose) \<in> set (sent (handleClose guest_joined 1)) \<and>
   room (clientObj (handleClose guest_joined 1) 1) = Some 0"
  by (simp add: close_evals scenario_evals evals)

text \<open>
  C6, amended.  When the socket of a session \<open>c\<close> closes, every room that \<open>c\<close> owns is
  removed from the directory, no session object and no room object is changed (so the room
  references of the other sessions stay as they were), and \<open>c\<close> is removed from the
  registry.  On a host whose sends return, the frames sent are, in this order: \<open>selfclose\<close>
  to every other registered session whose room reference is a removed room; \<open>onclose\<close> with
  the id of \<open>c\<close> to the session that the owner reference of \<open>c\<close> names, if any; and then
  the broadcast \<open>updaterooms\<close> if \<open>c\<close> had a room reference, else \<open>updateclients\<close>, computed
  on the state without \<open>c\<close> and without its rooms.
\<close>

theorem owner_close:
  "resolve s w = Some c \<longrightarrow>
     (let s' = handleClose s w
      in rooms s' = filter (\<lambda>r. room_owner (roomObj s r) \<noteq> Some c) (rooms s) \<and>
         clientObj s' = clientObj s \<and> roomObj s' = roomObj s \<and>
         map_of (clients s') (wsid (clientObj s c)) = None) \<and>
     (quiet s \<longrightarrow>
        (let cleaned =
               s\<lparr>rooms := filter (\<lambda>r. room_owner (roomObj s r) \<noteq> Some c) (rooms s),
                  clients := map_delete (wsid (clientObj s c)) (clients s),
                  sent := sent s
                    @ concat (map (\<lambda>r. map (\<lambda>x. (ws (clientObj s x), Selfclose))
                                          (selfclose_targets s r c))
                                (filter (\<lambda>r. room_owner (roomObj s r) = Some c) (rooms s)))
                    @ (case owner (clientObj s c) of
                         Some ow \<Rightarrow> [(ws (clientObj s ow), Onclose (wsid (clientObj s c)))]
                       | None \<Rightarrow> [])\<rparr>
         in handleClose s w =
              (if room (clientObj s c) \<noteq> None then updaterooms cleaned
               else updateclients cleaned)))"
  using handleClose_effect [of s w c] handleClose_quiet [of s w c] by blast

theorem owner_close_witness:
  "resolve guest_joined 1 = Some 0 \<and> quiet guest_joined \<and>
   rooms (handleClose guest_joined 1) = [] \<and>
   map_of (clients (handleClose guest_joined 1)) (lit ''1000000001'') = None \<and>
   handleClose guest_joined 1 =
     updaterooms (guest_joined\<lparr>rooms := [], clients := [(lit ''1000000002'', 1)],
                               sent := sent guest_joined @ [(2, Selfclose)]\<rparr>)"
proof -
  have a: "resolve guest_joined 1 = Some 0" "quiet guest_joined"
    by (simp_all add: close_evals scenario_evals evals)
  have f: "rooms guest_joined = [0]" "room_owner (roomObj guest_joined 0) = Some 0"
    "wsid (clientObj guest_joined 0) = lit ''1000000001''"
    "clients guest_joined = [(lit ''1000000001'', 0), (lit ''1000000002'', 1)]"
    "room (clientObj guest_joined 0) = Some 0" "room (clientObj guest_joined 1) = Some 0"
    "owner (clientObj guest_joined 0) = None" "ws (clientObj guest_joined 1) = 2"
    by (simp_all add: close_evals scenario_evals evals)
  note T = owner_close [where s = guest_joined and w = 1 and c = 0, rule_format, OF a(1)]
  have p1: "rooms (handleClose guest_joined 1) = [] \<and>
      map_of (clients (handleClose guest_joined 1)) (lit ''1000000001'') = None"
    using T [THEN conjunct1] f by (simp add: Let_def)
  have p2: "handleClose guest_joined 1 =
     updaterooms (guest_joined\<lparr>rooms := [], clients := [(lit ''1000000002'', 1)],
                               sent := sent guest_joined @ [(2, Selfclose)]\<rparr>)"
    using T [THEN conjunct2, rule_format, OF a(2)] f
    by (simp add: Let_def selfclose_targets_def map_delete_def lit_def)
  show ?thesis
    using a p1 p2 by simp
qed

section \<open>The room list\<close>

lemma set_index_beyond:
  "length out \<le> i \<Longrightarrow> set_index out i v = out @ replicate (i - length out) None @ [Some v]"
  by (simp add: set_index_def)

lemma entry_with_cong:
  "roomObj s' = roomObj s \<Longrightarrow> clientObj s' = clientObj s \<Longrightarrow> entry_with s' = entry_with s"
  by (intro ext) (simp add: entry_with_def split: option.splits)

lemma shown_cong: "roomObj s' = roomObj s \<Longrightarrow> shown s' = shown s"
  by (simp add: shown_def fun_eq_iff)

lemma roomlist_loop_pure:
  "roomObj s' = roomObj s \<Longrightarrow> clientObj s' = clientObj s \<Longrightarrow>
   fst (roomlist_loop i rs m out s') = fst (roomlist_loop i rs m out s)"
proof (induction rs arbitrary: i m out s s')
  case Nil
  show ?case by simp
next
  case (Cons r rs)
  have a: "\<And>i m out x y. fst (roomlist_loop i rs m out (sendl s' x Reloadroom))
      = fst (roomlist_loop i rs m out (sendl s y Reloadroom))"
    by (rule Cons.IH) (simp_all add: Cons.prems)
  have b: "\<And>i m out x. fst (roomlist_loop i rs m out (sendl s' x Reloadroom))
      = fst (roomlist_loop i rs m out s)"
    by (rule Cons.IH) (simp_all add: Cons.prems)
  have c: "\<And>i m out. fst (roomlist_loop i rs m out s') = fst (roomlist_loop i rs m out s)"
    by (rule Cons.IH) (simp_all add: Cons.prems)
  show ?case
    using a b c by (simp add: Cons.prems Let_def split: option.splits)
qed

lemma roomlist_loop_prefix:
  "length out \<le> i \<Longrightarrow> \<exists>ext. fst (roomlist_loop i rs m out s) = out @ ext"
proof (induction rs arbitrary: i m out s)
  case Nil
  show ?case by simp
next
  case (Cons r rs)
  have l1: "length (set_index out i ServerMarker) \<le> Suc i"
    using Cons.prems by (simp add: set_index_def)
  have p1: "\<And>m s. \<exists>ext. fst (roomlist_loop (Suc i) rs m (set_index out i ServerMarker) s) = out @ ext"
  proof -
    fix m s
    obtain ext where "fst (roomlist_loop (Suc i) rs m (set_index out i ServerMarker) s)
        = set_index out i ServerMarker @ ext"
      using Cons.IH [OF l1] by blast
    then show "\<exists>ext. fst (roomlist_loop (Suc i) rs m (set_index out i ServerMarker) s) = out @ ext"
      using Cons.prems by (simp add: set_index_beyond)
  qed
  have p2: "\<And>m s e. \<exists>ext. fst (roomlist_loop (Suc i) rs m (out @ [e]) s) = out @ ext"
  proof -
    fix m s e
    have "length (out @ [e]) \<le> Suc i" using Cons.prems by simp
    from Cons.IH [OF this] obtain ext where
      "fst (roomlist_loop (Suc i) rs m (out @ [e]) s) = (out @ [e]) @ ext" by blast
    then show "\<exists>ext. fst (roomlist_loop (Suc i) rs m (out @ [e]) s) = out @ ext" by simp
  qed
  have p3: "\<And>m s. \<exists>ext. fst (roomlist_loop (Suc i) rs m out s) = out @ ext"
    using Cons.IH [of out "Suc i"] Cons.prems by simp
  show ?case
    using p1 p2 p3 by (simp add: Let_def split: option.splits)
qed

lemma reset_nums_in: "reset_nums rs m r = (if r \<in> set rs then Some 0 else m r)"
  by (induction rs arbitrary: m) auto

lemma count_nums_eq:
  "count_nums h cl m r =
     map_option (\<lambda>n. n + length (filter (\<lambda>(k, c). room (h c) = Some r \<and> \<not> servermode (h c)) cl)) (m r)"
proof (induction cl arbitrary: m)
  case Nil
  show ?case by (simp add: option.map_ident)
next
  case (Cons p cl)
  obtain k c where p: "p = (k, c)" by (cases p)
  show ?case
    by (cases "m r") (auto simp add: p Cons.IH split: option.splits)
qed

lemma getroomlist_nums:
  "r \<in> set (rooms s) \<Longrightarrow>
   count_nums (clientObj s) (clients s) (reset_nums (rooms s) (\<lambda>r. None)) r
     = Some (length (live_members s r))"
  by (simp add: count_nums_eq reset_nums_in live_members_def)

lemma roomlist_loop_entries:
  "distinct rs \<Longrightarrow> length out \<le> i \<Longrightarrow>
   filter (\<lambda>e. e \<noteq> None) (fst (roomlist_loop i rs m out s)) =
     filter (\<lambda>e. e \<noteq> None) out @ map (\<lambda>r. entry_with s (m r) r) (filter (shown s) rs)"
proof (induction rs arbitrary: i m out s)
  case Nil
  show ?case by simp
next
  case (Cons r rs)
  have d: "distinct rs" and nr: "r \<notin> set rs" using Cons.prems by simp_all
  have same: "map (\<lambda>x. entry_with s ((m(r := None)) x) x) (filter (shown s) rs)
      = map (\<lambda>x. entry_with s (m x) x) (filter (shown s) rs)"
    using nr by (auto intro!: map_cong)
  have IH: "filter (\<lambda>e. e \<noteq> None) (fst (roomlist_loop i rs (m(r := None)) out s')) =
       filter (\<lambda>e. e \<noteq> None) out @ map (\<lambda>x. entry_with s (m x) x) (filter (shown s) rs)"
    if "length out \<le> i" "roomObj s' = roomObj s" "clientObj s' = clientObj s" for i out s'
  proof -
    have e: "entry_with s' = entry_with s" using that(2,3) by (rule entry_with_cong)
    have sh: "shown s' = shown s" using that(2) by (rule shown_cong)
    show ?thesis
      using Cons.IH [OF d that(1), of "m(r := None)" s'] by (simp only: e sh same)
  qed
  show ?case
  proof (cases "room_servermode (roomObj s r)")
    case True
    have len: "length (set_index out i ServerMarker) \<le> Suc i"
      using Cons.prems(2) by (simp add: set_index_def)
    have sh: "shown s r" using True by (simp add: shown_def)
    have e: "entry_with s (m r) r = Some ServerMarker" using True by (simp add: entry_with_def)
    show ?thesis
      using True IH [OF len, of s] Cons.prems(2)
      by (simp add: set_index_beyond sh e)
  next
    case False
    show ?thesis
    proof (cases "room_owner (roomObj s r)")
      case None
      have sh: "\<not> shown s r" using False None by (simp add: shown_def)
      show ?thesis
        using False None IH [of out "Suc i" s] Cons.prems(2) by (simp add: sh)
    next
      case (Some ow)
      show ?thesis
      proof (cases "truthy (room_config (roomObj s r))")
        case f: False
        have sh: "\<not> shown s r" using False f by (simp add: shown_def)
        show ?thesis
          using False Some f IH [of out "Suc i" s] Cons.prems(2) by (simp add: sh)
      next
        case t: True
        define e where "e = Some (RoomTuple (nickname (clientObj s ow)) (avatar (clientObj s ow))
                       (room_config (roomObj s r)) (m r) (room_key (roomObj s r)))"
        have len: "length (out @ [e]) \<le> Suc i" using Cons.prems(2) by simp
        have e: "entry_with s (m r) r = e" "e \<noteq> None"
          using False Some by (simp_all add: entry_with_def e_def)
        have sh: "shown s r" using Some t by (simp add: shown_def)
        show ?thesis
          using False Some t sh e IH [OF len, of s] IH [OF len, of "sendl s ow Reloadroom"]
          by (auto simp add: Let_def e_def)
      qed
    qed
  qed
qed

lemma roomlist_loop_marker:
  "length out \<le> i \<Longrightarrow> j < length rs \<Longrightarrow> room_servermode (roomObj s (rs ! j)) \<Longrightarrow>
   i + j < length (fst (roomlist_loop i rs m out s)) \<and>
   fst (roomlist_loop i rs m out s) ! (i + j) = Some ServerMarker"
proof (induction rs arbitrary: i j m out s)
  case Nil
  then show ?case by simp
next
  case (Cons r rs)
  show ?case
  proof (cases j)
    case 0
    then have sm: "room_servermode (roomObj s r)" using Cons.prems by simp
    have l1: "length (set_index out i ServerMarker) \<le> Suc i"
      using Cons.prems(1) by (simp add: set_index_def)
    obtain ext where ext: "fst (roomlist_loop (Suc i) rs (m(r := None)) (set_index out i ServerMarker) s)
        = set_index out i ServerMarker @ ext"
      using roomlist_loop_prefix [OF l1] by blast
    have "length (set_index out i ServerMarker) = Suc i" "set_index out i ServerMarker ! i = Some ServerMarker"
      using Cons.prems(1) by (simp_all add: set_index_beyond nth_append)
    then show ?thesis
      using sm 0 ext by (simp add: nth_append)
  next
    case (Suc j')
    have j': "j' < length rs" "room_servermode (roomObj s (rs ! j'))"
      using Cons.prems Suc by simp_all
    have l1: "length (set_index out i ServerMarker) \<le> Suc i"
      using Cons.prems(1) by (simp add: set_index_def)
    have l2: "\<And>e. length (out @ [e]) \<le> Suc i" using Cons.prems(1) by simp
    have l3: "length out \<le> Suc i" using Cons.prems(1) by simp
    have j'': "\<And>x. room_servermode (roomObj (sendl s x Reloadroom) (rs ! j'))"
      using j'(2) by simp
    show ?thesis
      using Cons.IH [OF l1 j'(1) j'(2)] Cons.IH [OF l2 j'(1) j'(2)] Cons.IH [OF l3 j'(1) j'(2)]
        Cons.IH [OF l2 j'(1) j''] Suc
      by (simp add: Let_def split: option.splits)
  qed
qed

lemma getroomlist_entries:
  assumes "distinct (rooms s)"
  shows "filter (\<lambda>e. e \<noteq> None) (fst (getroomlist s)) = map (room_entry s) (filter (shown s) (rooms s))"
proof -
  have "map (\<lambda>r. entry_with s (count_nums (clientObj s) (clients s) (reset_nums (rooms s) (\<lambda>r. None)) r) r)
          (filter (shown s) (rooms s))
      = map (room_entry s) (filter (shown s) (rooms s))"
    by (rule map_cong) (simp_all add: room_entry_def getroomlist_nums)
  then show ?thesis
    using roomlist_loop_entries [OF assms, of "[]" 0] by (simp add: getroomlist_def)
qed

lemma getroomlist_marker:
  "i < length (rooms s) \<Longrightarrow> room_servermode (roomObj s (rooms s ! i)) \<Longrightarrow>
   i < length (fst (getroomlist s)) \<and> fst (getroomlist s) ! i = Some ServerMarker"
  using roomlist_loop_marker [of "[]" 0 i "rooms s" s] by (simp add: getroomlist_def)

lemma getroomlist_pure:
  assumes "rooms s' = rooms s" and "clients s' = clients s" and "clientObj s' = clientObj s"
    and "roomObj s' = roomObj s"
  shows "fst (getroomlist s') = fst (getroomlist s)"
proof -
  have "fst (roomlist_loop 0 (rooms s) M [] s') = fst (roomlist_loop 0 (rooms s) M [] s)" for M
    by (rule roomlist_loop_pure) (simp_all add: assms)
  then show ?thesis by (simp add: getroomlist_def assms)
qed

lemma getroomlist_twice:
  "clients (snd (getroomlist s)) = clients s \<Longrightarrow>
   fst (getroomlist (snd (getroomlist s))) = fst (getroomlist s)"
  by (rule getroomlist_pure) simp_all

section \<open>A refused entrant\<close>

text \<open>
  The member count of a room \<open>r\<close> that \<open>getroomlist\<close> computes in its first two loops, and
  the share of one session \<open>c\<close> whose room reference is \<open>r\<close> in it: \<open>c\<close> adds one for
  each of its entries in the registry unless it is in servermode, and then nothing.
\<close>

lemma count_nums_share:
  assumes "room (h c) = Some r"
  shows "count_nums h cl m r =
           map_option (\<lambda>n. n + (if servermode (h c) then 0 else count_list (map snd cl) c))
             (count_nums (h(c := (h c)\<lparr>room := None\<rparr>)) cl m r)"
proof -
  have "length (filter (\<lambda>(k, x). room (h x) = Some r \<and> \<not> servermode (h x)) cl) =
        length (filter (\<lambda>(k, x). room ((h(c := (h c)\<lparr>room := None\<rparr>)) x) = Some r
                                   \<and> \<not> servermode ((h(c := (h c)\<lparr>room := None\<rparr>)) x)) cl)
          + (if servermode (h c) then 0 else count_list (map snd cl) c)"
    using assms by (induction cl) auto
  then show ?thesis
    by (cases "m r") (simp_all add: count_nums_eq)
qed

lemma enter_sets_room:
  assumes "find (\<lambda>r'. strict_eq (room_key (roomObj s r')) key) (rooms s) = Some r"
  shows "let s' = messages_enter s c key nick av config mode
         in room (clientObj s' c) = Some r \<and> status (clientObj s' c) = None"
  using assms by (simp add: messages_enter_def Let_def split: option.splits)

lemma enter_refused:
  assumes key: "find (\<lambda>r'. strict_eq (room_key (roomObj s r')) key) (rooms s) = Some r"
    and own: "room_owner (roomObj s r) = Some ow"
    and nc: "\<not> (room_servermode (roomObj s r) \<and> onconfig (clientObj s ow) = None
                \<and> truthy config \<and> truthy mode)"
    and refused: "admission_refused (room_config (roomObj s r))"
    and guest: "owner (clientObj s c) = None"
  shows "let s' = messages_enter s c key nick av config mode
         in room (clientObj s' c) = Some r \<and> status (clientObj s' c) = None \<and>
            owner (clientObj s' c) = None \<and> roomObj s' = roomObj s \<and>
            servermode (clientObj s' c) = servermode (clientObj s c) \<and>
            (\<not> sendThrows s (ws (clientObj s c)) \<longrightarrow>
               (ws (clientObj s c), Enterroomfailed) \<in> set (sent s')) \<and>
            count_nums (clientObj s') (clients s') (reset_nums (rooms s') (\<lambda>r. None)) r =
              map_option
                (\<lambda>n. n + (if servermode (clientObj s c) then 0
                           else count_list (map snd (clients s')) c))
                (count_nums ((clientObj s')(c := (clientObj s' c)\<lparr>room := None\<rparr>)) (clients s')
                   (reset_nums (rooms s') (\<lambda>r. None)) r) \<and>
            c \<notin> set (lobby_recipients s') \<and>
            (quiet s \<longrightarrow> (\<forall>f. sent (lobby_send f (clients s') s') =
               sent s' @ map (\<lambda>x. (ws (clientObj s' x), f)) (lobby_recipients s')))"
proof -
  define y where "y = sendl (upd_client c (\<lambda>x. x\<lparr>room := Some r, status := None\<rparr>)
      (upd_client c (\<lambda>x. x\<lparr>nickname := getNickname nick, avatar := av\<rparr>) s)) c Enterroomfailed"
  have e: "messages_enter s c key nick av config mode = updaterooms y"
    using assms by (auto simp add: messages_enter_def Let_def y_def)
  have heap: "room (clientObj y c) = Some r" "status (clientObj y c) = None"
    "owner (clientObj y c) = None" "roomObj y = roomObj s"
    "servermode (clientObj y c) = servermode (clientObj s c)"
    using guest by (simp_all add: y_def)
  have snt: "\<not> sendThrows s (ws (clientObj s c)) \<Longrightarrow> (ws (clientObj s c), Enterroomfailed) \<in> set (sent y)"
    by (simp add: y_def sendl_def)
  have up: "adds (\<lambda>f. True) y (updaterooms y)"
    by (rule adds_updaterooms) simp_all
  have q: "quiet s \<Longrightarrow> quiet (updaterooms y)"
    by (simp add: y_def)
  have cnt: "count_nums (clientObj (updaterooms y)) (clients (updaterooms y))
               (reset_nums (rooms (updaterooms y)) (\<lambda>r. None)) r =
              map_option
                (\<lambda>n. n + (if servermode (clientObj s c) then 0
                           else count_list (map snd (clients (updaterooms y))) c))
                (count_nums ((clientObj (updaterooms y))(c := (clientObj (updaterooms y) c)\<lparr>room := None\<rparr>))
                   (clients (updaterooms y)) (reset_nums (rooms (updaterooms y)) (\<lambda>r. None)) r)"
    using count_nums_share [of "clientObj (updaterooms y)" c r "clients (updaterooms y)"] heap(1,5)
    by simp
  have nrec: "c \<notin> set (lobby_recipients (updaterooms y))"
    using heap(1) by (auto simp add: lobby_recipients_def)
  show ?thesis
    unfolding Let_def e
    using heap adds_mem [OF up snt] q cnt nrec
    by (simp add: quiet_lobby_send)
qed

text \<open>
  C10, as stated, fails: a refused entrant that is in servermode (here after a \<open>server\<close>
  command for a slot that does not exist) has its room reference set to the room and no
  owner reference, but the member count of the room does not count it: the room list shows
  one member, the owner, while two sessions refer to the room.
\<close>

theorem refused_host_not_counted_counterexample:
  "admission_refused (room_config (roomObj host_refused 0)) \<and>
   map_of (clients entrant_refused) (lit ''1000000002'') = Some 1 \<and>
   room (clientObj entrant_refused 1) = Some 0 \<and> owner (clientObj entrant_refused 1) = None \<and>
   room (clientObj entrant_refused 0) = Some 0 \<and>
   (2, Enterroomfailed) \<in> set (sent entrant_refused) \<and>
   fst (getroomlist entrant_refused) =
     [Some (RoomTuple (lit ''Alice'') (JStr (lit ''av1'')) (JObj [(lit ''gameStarted'', JBool True)])
              (Some 1) (JStr (lit ''K1'')))]"
  by (simp add: entrant_refused_def host_refused_def room_started_def rooms_at_def
      messages_config_def set_index_def scenario_evals evals)

text \<open>
  C10, amended.  An \<open>enter\<close> command that matches a room \<open>r\<close> sets the caller's room
  reference to \<open>r\<close> and removes its status, whatever the admission test says.
  Let the command match a room \<open>r\<close> with an owner, and let it be refused (the call is no
  server claim, and the room has no config or its game has started without observation
  enabled and ready).  Then the entrant's room reference is \<open>r\<close> and its status is removed,
  its owner reference is still null, no room object changed, and \<open>enterroomfailed\<close> is sent
  to it (when that send returns).  The member count that \<open>getroomlist\<close> computes for \<open>r\<close>
  is the count without the entrant plus one for each entry the registry has for the
  entrant, unless the entrant is in servermode: then it is the count without the entrant.
  The entrant is not among the recipients of a lobby broadcast, which on a host whose sends
  return goes to exactly those recipients.
\<close>

theorem enter_refused_keeps_room:
  "(find (\<lambda>r'. strict_eq (room_key (roomObj s r')) key) (rooms s) = Some r \<longrightarrow>
      (let s' = messages_enter s c key nick av config mode
       in room (clientObj s' c) = Some r \<and> status (clientObj s' c) = None)) \<and>
   (find (\<lambda>r'. strict_eq (room_key (roomObj s r')) key) (rooms s) = Some r \<and>
    room_owner (roomObj s r) = Some ow \<and>
    \<not> (room_servermode (roomObj s r) \<and> onconfig (clientObj s ow) = None
        \<and> truthy config \<and> truthy mode) \<and>
    admission_refused (room_config (roomObj s r)) \<and>
    owner (clientObj s c) = None \<longrightarrow>
      (let s' = messages_enter s c key nick av config mode
       in room (clientObj s' c) = Some r \<and> status (clientObj s' c) = None \<and>
          owner (clientObj s' c) = None \<and> roomObj s' = roomObj s \<and>
          servermode (clientObj s' c) = servermode (clientObj s c) \<and>
          (\<not> sendThrows s (ws (clientObj s c)) \<longrightarrow>
             (ws (clientObj s c), Enterroomfailed) \<in> set (sent s')) \<and>
          count_nums (clientObj s') (clients s') (reset_nums (rooms s') (\<lambda>r. None)) r =
            map_option
              (\<lambda>n. n + (if servermode (clientObj s c) then 0
                         else count_list (map snd (clients s')) c))
              (count_nums ((clientObj s')(c := (clientObj s' c)\<lparr>room := None\<rparr>)) (clients s')
                 (reset_nums (rooms s') (\<lambda>r. None)) r) \<and>
          c \<notin> set (lobby_recipients s') \<and>
          (quiet s \<longrightarrow> (\<forall>f. sent (lobby_send f (clients s') s') =
             sent s' @ map (\<lambda>x. (ws (clientObj s' x), f)) (lobby_recipients s')))))"
  using enter_sets_room [of s key r c nick av config mode]
    enter_refused [of s key r ow config mode c nick av]
  by blast

theorem enter_refused_keeps_room_witness:
  "find (\<lambda>r'. strict_eq (room_key (roomObj room_created r')) (JStr (lit ''K1''))) (rooms room_created)
     = Some 0 \<and>
   room_owner (roomObj room_created 0) = Some 0 \<and>
   admission_refused (room_config (roomObj room_created 0)) \<and>
   owner (clientObj room_created 1) = None \<and> \<not> servermode (clientObj room_created 1) \<and>
   room (clientObj (messages_enter room_created 1 (JStr (lit ''K1'')) (JStr (lit ''Bob''))
                      (JStr (lit ''av2'')) JUndef JUndef) 1) = Some 0 \<and>
   (2, Enterroomfailed) \<in> set (sent (messages_enter room_created 1 (JStr (lit ''K1''))
                      (JStr (lit ''Bob'')) (JStr (lit ''av2'')) JUndef JUndef)) \<and>
   count_nums
     (clientObj (messages_enter room_created 1 (JStr (lit ''K1'')) (JStr (lit ''Bob''))
                      (JStr (lit ''av2'')) JUndef JUndef))
     (clients (messages_enter room_created 1 (JStr (lit ''K1'')) (JStr (lit ''Bob''))
                      (JStr (lit ''av2'')) JUndef JUndef))
     (reset_nums (rooms (messages_enter room_created 1 (JStr (lit ''K1'')) (JStr (lit ''Bob''))
                      (JStr (lit ''av2'')) JUndef JUndef)) (\<lambda>r. None)) 0 = Some 2"
proof -
  define e where "e = messages_enter room_created 1 (JStr (lit ''K1'')) (JStr (lit ''Bob''))
                      (JStr (lit ''av2'')) JUndef JUndef"
  have h: "find (\<lambda>r'. strict_eq (room_key (roomObj room_created r')) (JStr (lit ''K1'')))
             (rooms room_created) = Some 0"
    "room_owner (roomObj room_created 0) = Some 0"
    "admission_refused (room_config (roomObj room_created 0))"
    "owner (clientObj room_created 1) = None"
    "\<not> sendThrows room_created (ws (clientObj room_created 1))"
    "ws (clientObj room_created 1) = 2" "\<not> servermode (clientObj room_created 1)"
    "\<not> room_servermode (roomObj room_created 0)"
    by (simp_all add: scenario_evals evals)
  have hyp: "find (\<lambda>r'. strict_eq (room_key (roomObj room_created r')) (JStr (lit ''K1'')))
             (rooms room_created) = Some 0 \<and>
    room_owner (roomObj room_created 0) = Some 0 \<and>
    \<not> (room_servermode (roomObj room_created 0) \<and> onconfig (clientObj room_created 0) = None
        \<and> truthy JUndef \<and> truthy JUndef) \<and>
    admission_refused (room_config (roomObj room_created 0)) \<and>
    owner (clientObj room_created 1) = None"
    using h by simp
  note T = enter_refused_keeps_room [where s = room_created and key = "JStr (lit ''K1'')" and r = 0
        and ow = 0 and config = JUndef and mode = JUndef and c = 1
        and nick = "JStr (lit ''Bob'')" and av = "JStr (lit ''av2'')",
        THEN conjunct2, THEN mp, OF hyp, unfolded Let_def e_def [symmetric]]
  have f: "clients e = [(lit ''1000000001'', 0), (lit ''1000000002'', 1)]" "rooms e = [0]"
    "room (clientObj e 0) = Some 0" "\<not> servermode (clientObj e 0)"
    by (simp_all add: e_def scenario_evals evals)
  have p1: "room (clientObj e 1) = Some 0" "(2, Enterroomfailed) \<in> set (sent e)"
    using T h(5,6) by simp_all
  have "count_nums (clientObj e) (clients e) (reset_nums (rooms e) (\<lambda>r. None)) 0 =
      map_option (\<lambda>n. n + (if servermode (clientObj room_created 1) then 0
                         else count_list (map snd (clients e)) 1))
        (count_nums ((clientObj e)(1 := (clientObj e 1)\<lparr>room := None\<rparr>)) (clients e)
           (reset_nums (rooms e) (\<lambda>r. None)) 0)"
    using T by blast
  then have p2: "count_nums (clientObj e) (clients e) (reset_nums (rooms e) (\<lambda>r. None)) 0 = Some 2"
    using h(7) f by simp
  show ?thesis
    using h(1-4,7) p1 p2 unfolding e_def by simp
qed

section \<open>Resolving the session of an inbound message\<close>

lemma map_of_map_set: "map_of (map_set k v ps) k' = (if k' = k then Some v else map_of ps k')"
  by (induction ps) auto

lemma rehydrate_absent:
  assumes "map_of (reg_clients g) (meta_wsid m) = None"
  shows "let c = fst (rehydrate g w m); g' = snd (rehydrate g w m)
         in map_of (reg_clients g') (meta_wsid m) = Some c \<and>
            reg_obj g' c =
              \<lparr>w_ws = w, w_wsid = meta_wsid m, w_clientIp = meta_ip m, w_nickname = [],
               w_avatar = JStr [], w_room = None, w_owner = None, w_status = None,
               w_onlineKey = JNull, w_servermode = False, w_onconfig = None\<rparr> \<and>
            (\<forall>k. k \<noteq> meta_wsid m \<longrightarrow> map_of (reg_clients g') k = map_of (reg_clients g) k) \<and>
            (\<forall>x. x \<noteq> c \<longrightarrow> reg_obj g' x = reg_obj g x)"
  using assms by (simp add: rehydrate_def createClientWrapper_def Let_def map_of_map_set)

lemma rehydrate_present:
  assumes "map_of (reg_clients g) (meta_wsid m) = Some c"
  shows "rehydrate g w m = (c, g) \<and> createClientWrapper g w m = (c, g)"
  using assms by (simp add: rehydrate_def createClientWrapper_def)

lemma rehydrate_idem: "rehydrate (snd (rehydrate g w m)) w m = rehydrate g w m"
  by (simp add: rehydrate_def createClientWrapper_def Let_def map_of_map_set split: option.splits)

lemma index_drops:
  assumes "resolve s w = None"
  shows "webSocketMessage s w message time fresh = s"
  using assms by (simp add: webSocketMessage_def)

text \<open>
  C1, as stated, fails for the broker with the liveness sweep: an inbound message on a
  socket whose attachment names a session that is not in the registry is dropped, and no
  session is reconstructed.
\<close>

theorem index_drops_unknown_session_counterexample:
  "attachments restarted 1 = Wsid (lit ''1000000001'') \<and>
   map_of (clients restarted) (lit ''1000000001'') = None \<and>
   clients (webSocketMessage restarted 1
              (Inbound (lit ''x'') (Some (JArr [JStr (lit ''server''), JStr (lit ''key''),
                                                JArr [JStr (lit ''K1'')]])))
              7 (lit ''1000000009'')) = []"
  by (simp add: restarted_def constructor_def webSocketMessage_def resolve_def)

text \<open>
  C1, amended.  In the rehydrating iteration, an inbound message on a socket whose
  attachment carries a session id first resolves the session: if the registry has no
  session for the id, a minimal session is built from the attachment (socket, id and
  address; everything else initial) and inserted under the id, and no other entry and no
  other object changes; if it has one, that session is returned and the registry is
  unchanged; running the step again returns the same session and registry.  In the broker
  with the liveness sweep, a message whose socket resolves to no session is dropped without
  any change of state.
\<close>

theorem rehydration:
  "(map_of (reg_clients g) (meta_wsid m) = None \<longrightarrow>
      (let c = fst (rehydrate g w m); g' = snd (rehydrate g w m)
       in map_of (reg_clients g') (meta_wsid m) = Some c \<and>
          reg_obj g' c =
            \<lparr>w_ws = w, w_wsid = meta_wsid m, w_clientIp = meta_ip m, w_nickname = [],
             w_avatar = JStr [], w_room = None, w_owner = None, w_status = None,
             w_onlineKey = JNull, w_servermode = False, w_onconfig = None\<rparr> \<and>
          (\<forall>k. k \<noteq> meta_wsid m \<longrightarrow> map_of (reg_clients g') k = map_of (reg_clients g) k) \<and>
          (\<forall>x. x \<noteq> c \<longrightarrow> reg_obj g' x = reg_obj g x))) \<and>
   (map_of (reg_clients g) (meta_wsid m) = Some c' \<longrightarrow>
      rehydrate g w m = (c', g) \<and> createClientWrapper g w m = (c', g)) \<and>
   rehydrate (snd (rehydrate g w m)) w m = rehydrate g w m \<and>
   (resolve s w = None \<longrightarrow> webSocketMessage s w message time fresh = s)"
  using rehydrate_absent [of g m w] rehydrate_present [of g m c' w] rehydrate_idem [of g w m]
    index_drops [of s w message time fresh]
  by blast

theorem rehydration_witness:
  "map_of (reg_clients new_registry) (meta_wsid first_meta) = None \<and>
   map_of (reg_clients (snd (rehydrate new_registry 1 first_meta))) (lit ''1000000001'')
     = Some (fst (rehydrate new_registry 1 first_meta)) \<and>
   w_ws (reg_obj (snd (rehydrate new_registry 1 first_meta)) (fst (rehydrate new_registry 1 first_meta)))
     = 1 \<and>
   map_of (reg_clients (snd (rehydrate new_registry 1 first_meta))) (meta_wsid first_meta) = Some 0 \<and>
   rehydrate (snd (rehydrate new_registry 1 first_meta)) 1 first_meta
     = (0, snd (rehydrate new_registry 1 first_meta)) \<and>
   resolve restarted 1 = None \<and>
   webSocketMessage restarted 1 (Inbound (lit ''heartbeat'') None) 7 (lit ''1000000009'') = restarted"
proof -
  have a: "map_of (reg_clients new_registry) (meta_wsid first_meta) = None"
    "meta_wsid first_meta = lit ''1000000001''"
    by (simp_all add: new_registry_def first_meta_def)
  have b: "map_of (reg_clients (snd (rehydrate new_registry 1 first_meta))) (meta_wsid first_meta) = Some 0"
    by (simp add: new_registry_def first_meta_def rehydrate_def createClientWrapper_def)
  have r: "resolve restarted 1 = None"
    by (simp add: restarted_def constructor_def resolve_def)
  note T1 = rehydration [where g = new_registry and m = first_meta and w = 1]
  have p1: "map_of (reg_clients (snd (rehydrate new_registry 1 first_meta))) (lit ''1000000001'')
     = Some (fst (rehydrate new_registry 1 first_meta)) \<and>
     w_ws (reg_obj (snd (rehydrate new_registry 1 first_meta)) (fst (rehydrate new_registry 1 first_meta)))
     = 1"
    using T1 [THEN conjunct1] a by (simp add: Let_def)
  have p2: "rehydrate (snd (rehydrate new_registry 1 first_meta)) 1 first_meta
     = (0, snd (rehydrate new_registry 1 first_meta))"
    using rehydration [where g = "snd (rehydrate new_registry 1 first_meta)" and m = first_meta
        and w = 1 and c' = 0, THEN conjunct2, THEN conjunct1] b
    by simp
  have p3: "webSocketMessage restarted 1 (Inbound (lit ''heartbeat'') None) 7 (lit ''1000000009'') = restarted"
    using rehydration [where s = restarted and w = 1, THEN conjunct2, THEN conjunct2, THEN conjunct2] r
    by simp
  show ?thesis
    using a(1) b r p1 p2 p3 by simp
qed

end
